theory Spec2Isabelle
  imports Main "HOL-Library.AList" "HOL-Library.Word"
begin

section \<open>Python values used by app.py\<close>

text \<open>
  A Python \<open>str\<close> is a sequence of code points. It is modelled as a \<open>string\<close>, one
  \<open>char\<close> per code point (the code points below 256), so \<open>length\<close> counts what Python's
  \<open>len\<close> counts. File contents are \<open>bytes\<close>.
\<close>

type_synonym path = string
type_synonym bytes = "8 word list"

text \<open>The exceptions (all subclasses of \<open>Exception\<close>) that the modelled calls raise.\<close>

datatype exn =
    KeyError string
  | IndexError
  | ValueError
  | BinasciiError
  | HTTPError nat
  | InvalidSchema
  | RequestException
  | ParserRejectedMarkup
  | TemplateError
  | OSError
  | IsADirectoryError
  | FileNotFoundError

subsection \<open>\<open>str\<close> methods\<close>

definition startswith :: "string \<Rightarrow> string \<Rightarrow> bool" where
  "startswith s p = (take (length p) s = p)"

definition isspace :: "char \<Rightarrow> bool" where
  \<comment> \<open>\<open>str.isspace\<close> on the code points below 256\<close>
  "isspace c = ((of_char c :: nat) \<in> {9, 10, 11, 12, 13, 28, 29, 30, 31, 32, 133, 160})"

definition strip :: "string \<Rightarrow> string" where
  "strip s = rev (dropWhile isspace (rev (dropWhile isspace s)))"

definition lstrip :: "string \<Rightarrow> string" where
  "lstrip s = dropWhile isspace s"

definition lower_char :: "char \<Rightarrow> char" where
  "lower_char c =
     (let n = (of_char c :: nat)
      in if (65 \<le> n \<and> n \<le> 90) \<or> (192 \<le> n \<and> n \<le> 222 \<and> n \<noteq> 215) then char_of (n + 32) else c)"

definition lower :: "string \<Rightarrow> string" where
  "lower s = map lower_char s"

fun str_split :: "char \<Rightarrow> string \<Rightarrow> string list" where
  \<comment> \<open>\<open>s.split(sep)\<close> for a separator of one character\<close>
  "str_split sep [] = [[]]"
| "str_split sep (c # cs) =
     (if c = sep then [] # str_split sep cs
      else (case str_split sep cs of p # ps \<Rightarrow> (c # p) # ps | [] \<Rightarrow> [[c]]))"

definition str_split1 :: "char \<Rightarrow> string \<Rightarrow> string list" where
  \<comment> \<open>\<open>s.split(sep, 1)\<close>\<close>
  "str_split1 sep s =
     (if sep \<in> set s
      then [takeWhile (\<lambda>c. c \<noteq> sep) s, tl (dropWhile (\<lambda>c. c \<noteq> sep) s)]
      else [s])"

definition str_before :: "char \<Rightarrow> string \<Rightarrow> string" where
  \<comment> \<open>\<open>s.split(sep)[0]\<close>\<close>
  "str_before sep s = takeWhile (\<lambda>c. c \<noteq> sep) s"


definition item :: "'a list \<Rightarrow> nat \<Rightarrow> exn + 'a" where
  \<comment> \<open>\<open>xs[i]\<close> for \<open>i \<ge> 0\<close>\<close>
  "item xs i = (if i < length xs then Inr (xs ! i) else Inl IndexError)"

fun str_join :: "string \<Rightarrow> string list \<Rightarrow> string" where
  "str_join sep [] = []"
| "str_join sep [x] = x"
| "str_join sep (x # y # ys) = x @ sep @ str_join sep (y # ys)"

fun replace_from :: "string \<Rightarrow> string \<Rightarrow> nat \<Rightarrow> string \<Rightarrow> string" where
  \<comment> \<open>the scan of \<open>str.replace\<close> for a non-empty \<open>old\<close>; the counter skips the rest of
      an occurrence that has just been replaced\<close>
  "replace_from old new k [] = []"
| "replace_from old new (Suc k) (c # cs) = replace_from old new k cs"
| "replace_from old new 0 (c # cs) =
     (if startswith (c # cs) old then new @ replace_from old new (length old - 1) cs
      else c # replace_from old new 0 cs)"

definition str_replace :: "string \<Rightarrow> string \<Rightarrow> string \<Rightarrow> string" where
  \<comment> \<open>\<open>s.replace(old, new)\<close>: every occurrence, left to right, without overlap; an empty
      \<open>old\<close> matches before every character and at the end\<close>
  "str_replace s old new =
     (if old = [] then new @ concat (map (\<lambda>c. c # new) s) else replace_from old new 0 s)"

definition digit_char :: "nat \<Rightarrow> char" where
  "digit_char d = ''0123456789'' ! (d mod 10)"

function str_of_nat :: "nat \<Rightarrow> string" where
  \<comment> \<open>\<open>str(n)\<close> for \<open>n \<ge> 0\<close>\<close>
  "str_of_nat n =
     (if n < 10 then [digit_char n] else str_of_nat (n div 10) @ [digit_char (n mod 10)])"
  by pat_completeness auto
termination
  by (relation "measure (\<lambda>n. n)") auto

declare str_of_nat.simps [simp del]

subsection \<open>\<open>os.path\<close> (posixpath)\<close>

definition os_path_join :: "path \<Rightarrow> path \<Rightarrow> path" where
  "os_path_join a b =
     (if startswith b ''/'' then b
      else if a = [] \<or> last a = CHR ''/'' then a @ b
      else a @ ''/'' @ b)"

definition os_path_basename :: "path \<Rightarrow> path" where
  "os_path_basename p = rev (takeWhile (\<lambda>c. c \<noteq> CHR ''/'') (rev p))"

definition splitext_ext :: "path \<Rightarrow> string" where
  \<comment> \<open>\<open>os.path.splitext(p)[1]\<close>: from the last dot of the last component, when a character
      other than a dot comes before it in that component\<close>
  "splitext_ext p =
     (let b = os_path_basename p;
          e = rev (takeWhile (\<lambda>c. c \<noteq> CHR ''.'') (rev b));
          stem = take (length b - length e - 1) b
      in if CHR ''.'' \<in> set b \<and> filter (\<lambda>c. c \<noteq> CHR ''.'') stem \<noteq> [] then CHR ''.'' # e else [])"

subsection \<open>\<open>base64\<close>\<close>

definition b64_value :: "char \<Rightarrow> nat option" where
  "b64_value c =
     (let n = (of_char c :: nat)
      in if 65 \<le> n \<and> n \<le> 90 then Some (n - 65)
         else if 97 \<le> n \<and> n \<le> 122 then Some (n - 71)
         else if 48 \<le> n \<and> n \<le> 57 then Some (n + 4)
         else if n = 43 then Some 62
         else if n = 47 then Some 63
         else None)"

definition emit :: "nat \<Rightarrow> exn + bytes \<Rightarrow> exn + bytes" where
  "emit b r = (case r of Inl e \<Rightarrow> Inl e | Inr bs \<Rightarrow> Inr (of_nat b # bs))"

fun a2b_base64 :: "nat \<Rightarrow> nat \<Rightarrow> nat \<Rightarrow> string \<Rightarrow> exn + bytes" where
  \<comment> \<open>\<open>binascii.a2b_base64\<close> (not strict), with its loop variables \<open>quad_pos\<close>,
      \<open>leftchar\<close>, \<open>pads\<close>: characters outside the alphabet are skipped, a complete pad
      sequence ends the input, an incomplete last quad is an error\<close>
  "a2b_base64 q l p [] = (if q = 0 then Inr [] else Inl BinasciiError)"
| "a2b_base64 q l p (c # cs) =
     (if c = CHR ''='' then
        (if 2 \<le> q \<and> 4 \<le> q + (p + 1) then Inr []
         else a2b_base64 q l (if 2 \<le> q then p + 1 else p) cs)
      else
        (case b64_value c of
           None \<Rightarrow> a2b_base64 q l p cs
         | Some v \<Rightarrow>
             (if q = 0 then a2b_base64 1 v 0 cs
              else if q = 1 then emit (l * 4 + v div 16) (a2b_base64 2 (v mod 16) 0 cs)
              else if q = 2 then emit (l * 16 + v div 4) (a2b_base64 3 (v mod 4) 0 cs)
              else emit (l * 64 + v) (a2b_base64 0 0 0 cs))))"

definition b64decode :: "string \<Rightarrow> exn + bytes" where
  \<comment> \<open>\<open>base64.b64decode(s)\<close> for a \<open>str\<close>: it is encoded as ASCII first\<close>
  "b64decode s =
     (if filter (\<lambda>c. 128 \<le> (of_char c :: nat)) s \<noteq> [] then Inl ValueError
      else a2b_base64 0 0 0 s)"

definition b64_alphabet :: string where
  "b64_alphabet = ''ABCDEFGHIJKLMNOPQRSTUVWXYZabcdefghijklmnopqrstuvwxyz0123456789+/''"

definition b64_char :: "nat \<Rightarrow> char" where
  "b64_char n = b64_alphabet ! (n mod 64)"

fun b64encode :: "bytes \<Rightarrow> string" where
  \<comment> \<open>\<open>base64.b64encode(data).decode()\<close>\<close>
  "b64encode [] = []"
| "b64encode [a] =
     [b64_char (unat a div 4), b64_char (unat a mod 4 * 16), CHR ''='', CHR ''='']"
| "b64encode [a, b] =
     [b64_char (unat a div 4), b64_char (unat a mod 4 * 16 + unat b div 16),
      b64_char (unat b mod 16 * 4), CHR ''='']"
| "b64encode (a # b # c # r) =
     [b64_char (unat a div 4), b64_char (unat a mod 4 * 16 + unat b div 16),
      b64_char (unat b mod 16 * 4 + unat c div 64), b64_char (unat c mod 64)] @ b64encode r"

section \<open>The outside world\<close>

subsection \<open>Parsed pages\<close>

text \<open>
  The tree that \<open>BeautifulSoup(content, 'html.parser')\<close> builds: a \<open>Text\<close> node is a
  string that \<open>get_text\<close> yields, a \<open>Tag\<close> has its (lower-case) name, the list kept for
  its \<open>class\<close> attribute, its other attributes, and its children.
\<close>

datatype node =
    Text string
  | Tag string "string list" "(string \<times> string) list" "node list"

fun descendants :: "node \<Rightarrow> (node \<times> node) list" where
  \<comment> \<open>the descendants in document order, each with its parent\<close>
  "descendants (Text s) = []"
| "descendants (Tag n cl at ch) =
     concat (map (\<lambda>c. (Tag n cl at ch, c) # descendants c) ch)"

fun is_tag :: "string \<Rightarrow> node \<Rightarrow> bool" where
  "is_tag name (Text s) = False"
| "is_tag name (Tag n cl at ch) = (n = name)"

fun has_class :: "string \<Rightarrow> node \<Rightarrow> bool" where
  "has_class c (Text s) = False"
| "has_class c (Tag n cl at ch) = (c \<in> set cl)"

definition find_tag :: "string \<Rightarrow> node \<Rightarrow> node option" where
  \<comment> \<open>\<open>soup.find(name)\<close>\<close>
  "find_tag name soup = List.find (is_tag name) (map snd (descendants soup))"

definition select_one_class :: "string \<Rightarrow> string \<Rightarrow> node \<Rightarrow> node option" where
  \<comment> \<open>\<open>soup.select_one("name.cls")\<close>\<close>
  "select_one_class name cls soup =
     List.find (\<lambda>t. is_tag name t \<and> has_class cls t) (map snd (descendants soup))"

definition select_one_child :: "string \<Rightarrow> string \<Rightarrow> string \<Rightarrow> node \<Rightarrow> node option" where
  \<comment> \<open>\<open>soup.select_one("name.cls > child")\<close>\<close>
  "select_one_child name cls child soup =
     map_option snd
       (List.find (\<lambda>(p, t). is_tag child t \<and> is_tag name p \<and> has_class cls p) (descendants soup))"

fun text_of :: "node \<Rightarrow> string list" where
  "text_of (Text s) = [s]"
| "text_of (Tag n cl at ch) = []"

definition get_text :: "string \<Rightarrow> node \<Rightarrow> string" where
  \<comment> \<open>\<open>tag.get_text(separator=sep, strip=True)\<close>: the strings below the tag, each
      stripped, the empty ones dropped, joined by the separator\<close>
  "get_text sep t =
     str_join sep (filter (\<lambda>s. s \<noteq> []) (map strip (concat (map (text_of \<circ> snd) (descendants t)))))"

fun get_attr :: "node \<Rightarrow> string \<Rightarrow> string \<Rightarrow> string" where
  \<comment> \<open>\<open>tag.get(key, default)\<close>\<close>
  "get_attr (Text s) k d = d"
| "get_attr (Tag n cl at ch) k d = (case map_of at k of None \<Rightarrow> d | Some v \<Rightarrow> v)"

subsection \<open>Network, parser, template engine and file system\<close>

record response =
  status_code :: nat
  content :: bytes

datatype entry = File bytes | Dir

type_synonym fs = "path \<Rightarrow> entry option"

text \<open>A row of the table: \<open>csv.DictReader\<close> maps a column name to a string, or to
  \<open>None\<close> where the line is shorter than the header.\<close>

datatype cell = PyNone | Str string

type_synonym row = "(string \<times> cell) list"

text \<open>
  What the program calls and does not define is a parameter: the web behind
  \<open>requests.get\<close>, the parser behind \<open>BeautifulSoup\<close>, \<open>jinja2.Template\<close>, and the
  operating system's part in \<open>open\<close>, \<open>os.makedirs\<close>, \<open>shutil.copytree\<close> and
  \<open>shutil.make_archive\<close> (each yields the exception it raises, if any, and the files
  it leaves), and the directory that \<open>tempfile.mkdtemp\<close> made when the module was loaded.
\<close>

record env =
  TEMPLATE_TEMP_FOLDER :: path
  http :: "string \<Rightarrow> exn + response"
  html_parser :: "bytes \<Rightarrow> exn + node list"
  jinja2_Template :: "string \<Rightarrow> exn + (row \<Rightarrow> exn + string)"
  open_error :: "fs \<Rightarrow> path \<Rightarrow> exn option"
  os_makedirs :: "path \<Rightarrow> fs \<Rightarrow> exn option \<times> fs"
  shutil_copytree :: "path \<Rightarrow> path \<Rightarrow> fs \<Rightarrow> exn option \<times> fs"
  shutil_make_archive :: "string \<Rightarrow> path \<Rightarrow> fs \<Rightarrow> exn option \<times> fs"

text \<open>What \<open>st.error\<close> and \<open>st.info\<close> show to the user.\<close>

datatype notice =
    ScrapeError string exn
  | DownloadError string exn
  | EmbedError exn
  | DataUriError exn
  | RenderError string exn
  | CopyError string exn
  | WriteError string exn
  | Generated string
  | NoData

record world =
  files :: fs
  shown :: "notice list"

definition st_show :: "notice \<Rightarrow> world \<Rightarrow> world" where
  "st_show n w = w\<lparr>shown := shown w @ [n]\<rparr>"

definition is_http_url :: "string \<Rightarrow> bool" where
  \<comment> \<open>the URLs \<open>requests\<close> has a connection adapter for\<close>
  "is_http_url u =
     (startswith (lower (lstrip u)) ''http://'' \<or> startswith (lower (lstrip u)) ''https://'')"

definition requests_get :: "env \<Rightarrow> string \<Rightarrow> exn + response" where
  \<comment> \<open>\<open>requests.get(url, timeout=10)\<close>: any other string raises (\<open>MissingSchema\<close>,
      \<open>InvalidSchema\<close>, \<open>InvalidURL\<close>) before anything is sent\<close>
  "requests_get E url = (if is_http_url url then http E url else Inl InvalidSchema)"

definition raise_for_status :: "response \<Rightarrow> exn + unit" where
  \<comment> \<open>\<open>Response.raise_for_status\<close> raises for the client and server error codes only\<close>
  "raise_for_status r =
     (if 400 \<le> status_code r \<and> status_code r < 600 then Inl (HTTPError (status_code r))
      else Inr ())"

definition BeautifulSoup :: "env \<Rightarrow> bytes \<Rightarrow> exn + node" where
  "BeautifulSoup E markup =
     (case html_parser E markup of
        Inl e \<Rightarrow> Inl e
      | Inr ns \<Rightarrow> Inr (Tag ''[document]'' [] [] ns))"

definition os_path_exists :: "fs \<Rightarrow> path \<Rightarrow> bool" where
  "os_path_exists f p = (f p \<noteq> None)"

definition read_bytes :: "env \<Rightarrow> fs \<Rightarrow> path \<Rightarrow> exn + bytes" where
  \<comment> \<open>\<open>open(p, "rb")\<close> and \<open>f.read()\<close>\<close>
  "read_bytes E f p =
     (case f p of
        None \<Rightarrow> Inl FileNotFoundError
      | Some Dir \<Rightarrow> Inl IsADirectoryError
      | Some (File b) \<Rightarrow> (case open_error E f p of Some e \<Rightarrow> Inl e | None \<Rightarrow> Inr b))"

definition open_write :: "env \<Rightarrow> fs \<Rightarrow> path \<Rightarrow> exn + fs" where
  \<comment> \<open>\<open>open(p, "wb")\<close> or \<open>open(p, "w")\<close>: the file exists and is empty afterwards\<close>
  "open_write E f p =
     (case f p of
        Some Dir \<Rightarrow> Inl IsADirectoryError
      | _ \<Rightarrow> (case open_error E f p of Some e \<Rightarrow> Inl e | None \<Rightarrow> Inr (f(p \<mapsto> File []))))"

section \<open>app.py\<close>

definition OUTPUT_FOLDER :: path where
  "OUTPUT_FOLDER = ''generated_mails''"

subsection \<open>\<open>scrap_page\<close>\<close>

record scraped =
  title :: string
  img :: string
  lead :: string

definition no_fields :: scraped where
  "no_fields = \<lparr>title = [], img = [], lead = []\<rparr>"

definition lead_text :: "node \<Rightarrow> string" where
  \<comment> \<open>lines 117 to 123\<close>
  "lead_text soup =
     (case select_one_class ''div'' ''entry-lead'' soup of
        Some lead_tag \<Rightarrow> get_text [] lead_tag
      | None \<Rightarrow>
          (case select_one_class ''div'' ''article__content'' soup of
             Some article_tag \<Rightarrow> get_text '' '' article_tag
           | None \<Rightarrow> []))"

definition extract_fields :: "node \<Rightarrow> scraped" where
  \<comment> \<open>lines 109 to 128\<close>
  "extract_fields soup =
     \<lparr>title = (case find_tag ''h1'' soup of Some h1 \<Rightarrow> get_text [] h1 | None \<Rightarrow> []),
      img = (case select_one_child ''div'' ''entry-image'' ''img'' soup of
               Some img_tag \<Rightarrow> get_attr img_tag ''src'' []
             | None \<Rightarrow> []),
      lead = take 150 (lead_text soup)\<rparr>"

definition scrap_page_try :: "env \<Rightarrow> string \<Rightarrow> exn + scraped" where
  \<comment> \<open>the body of the \<open>try\<close>\<close>
  "scrap_page_try E url =
     (case requests_get E url of
        Inl e \<Rightarrow> Inl e
      | Inr r \<Rightarrow>
          (case raise_for_status r of
             Inl e \<Rightarrow> Inl e
           | Inr _ \<Rightarrow>
               (case BeautifulSoup E (content r) of
                  Inl e \<Rightarrow> Inl e
                | Inr soup \<Rightarrow> Inr (extract_fields soup))))"

definition scrap_page :: "env \<Rightarrow> string \<Rightarrow> world \<Rightarrow> scraped \<times> world" where
  "scrap_page E url w =
     (case scrap_page_try E url of
        Inr d \<Rightarrow> (d, w)
      | Inl e \<Rightarrow> (no_fields, st_show (ScrapeError url e) w))"

subsection \<open>\<open>process_scrape_csv\<close>\<close>

definition getitem :: "row \<Rightarrow> string \<Rightarrow> exn + cell" where
  \<comment> \<open>\<open>row[k]\<close>\<close>
  "getitem r k = (case map_of r k of None \<Rightarrow> Inl (KeyError k) | Some v \<Rightarrow> Inr v)"

definition setitem :: "row \<Rightarrow> string \<Rightarrow> cell \<Rightarrow> row" where
  \<comment> \<open>\<open>row[k] = v\<close>: a dict keeps the place of a key it has, and appends a new one\<close>
  "setitem r k v = AList.update k v r"

fun truthy :: "cell \<Rightarrow> bool" where
  "truthy PyNone = False"
| "truthy (Str s) = (s \<noteq> [])"

definition scrape_column :: "env \<Rightarrow> string \<Rightarrow> row \<Rightarrow> world \<Rightarrow> (exn + row) \<times> world" where
  \<comment> \<open>lines 175 to 185 for \<open>n = "1"\<close>, lines 187 to 197 for \<open>n = "2"\<close>\<close>
  "scrape_column E n r w =
     (case map_of r (''url'' @ n) of
        Some (Str u) \<Rightarrow>
          (if u \<noteq> [] then
             (let (d, w') = scrap_page E u w;
                  r1 = setitem r (''url'' @ n) (Str u);
                  r2 = setitem r1 (''title'' @ n) (Str (title d));
                  r3 = setitem r2 (''img'' @ n) (Str (img d));
                  r4 = setitem r3 (''lead'' @ n) (Str (lead d))
              in (Inr r4, w'))
           else
             (Inr (setitem (setitem (setitem (setitem r (''url'' @ n) (Str u))
                (''title'' @ n) (Str [])) (''img'' @ n) (Str [])) (''lead'' @ n) (Str [])), w))
      | _ \<Rightarrow>
          (case getitem r (''url'' @ n) of
             Inl e \<Rightarrow> (Inl e, w)
           | Inr v \<Rightarrow>
               (Inr (setitem (setitem (setitem (setitem r (''url'' @ n) v)
                  (''title'' @ n) (Str [])) (''img'' @ n) (Str [])) (''lead'' @ n) (Str [])), w)))"

definition enrich_row :: "env \<Rightarrow> row \<Rightarrow> world \<Rightarrow> (exn + row) \<times> world" where
  \<comment> \<open>the body of the loop, lines 174 to 197\<close>
  "enrich_row E r w =
     (case scrape_column E ''1'' r w of
        (Inl e, w1) \<Rightarrow> (Inl e, w1)
      | (Inr r1, w1) \<Rightarrow> scrape_column E ''2'' r1 w1)"

fun enrich_rows :: "env \<Rightarrow> row list \<Rightarrow> world \<Rightarrow> (exn + row list) \<times> world" where
  "enrich_rows E [] w = (Inr [], w)"
| "enrich_rows E (r # rs) w =
     (case enrich_row E r w of
        (Inl e, w1) \<Rightarrow> (Inl e, w1)
      | (Inr r', w1) \<Rightarrow>
          (case enrich_rows E rs w1 of
             (Inl e, w2) \<Rightarrow> (Inl e, w2)
           | (Inr rs', w2) \<Rightarrow> (Inr (r' # rs'), w2)))"

definition process_scrape_csv :: "env \<Rightarrow> row list \<Rightarrow> world \<Rightarrow> (exn + row list) \<times> world" where
  \<comment> \<open>from line 170 on: \<open>reader\<close> is the list of rows that \<open>csv.DictReader\<close> gave\<close>
  "process_scrape_csv E reader w =
     (if reader = [] then (Inr [], st_show NoData w) else enrich_rows E reader w)"

subsection \<open>\<open>download_image\<close>, \<open>save_data_uri_as_file\<close>, \<open>embed_image_as_data_uri\<close>\<close>

definition download_try :: "env \<Rightarrow> string \<Rightarrow> path \<Rightarrow> fs \<Rightarrow> (exn + path) \<times> fs" where
  \<comment> \<open>the body of the \<open>try\<close>, lines 59 to 65\<close>
  "download_try E image_url dest_folder f =
     (case requests_get E image_url of
        Inl e \<Rightarrow> (Inl e, f)
      | Inr r \<Rightarrow>
          (case raise_for_status r of
             Inl e \<Rightarrow> (Inl e, f)
           | Inr _ \<Rightarrow>
               (let filename = os_path_basename (str_before CHR ''?'' image_url);
                    local_path = os_path_join dest_folder filename
                in case open_write E f local_path of
                     Inl e \<Rightarrow> (Inl e, f)
                   | Inr f1 \<Rightarrow> (Inr local_path, f1(local_path \<mapsto> File (content r))))))"

definition download_image :: "env \<Rightarrow> string \<Rightarrow> path \<Rightarrow> world \<Rightarrow> string option \<times> world" where
  "download_image E image_url dest_folder w =
     (if image_url = [] then (None, w)
      else if startswith image_url ''data:'' then (Some image_url, w)
      else
        (case download_try E image_url dest_folder (files w) of
           (Inr local_path, f) \<Rightarrow> (Some local_path, w\<lparr>files := f\<rparr>)
         | (Inl e, f) \<Rightarrow> (None, st_show (DownloadError image_url e) (w\<lparr>files := f\<rparr>))))"

definition save_try :: "env \<Rightarrow> string \<Rightarrow> path \<Rightarrow> string \<Rightarrow> fs \<Rightarrow> (exn + path option) \<times> fs" where
  \<comment> \<open>the body of the \<open>try\<close>, lines 142 to 153; the file is opened before the payload
      is decoded\<close>
  "save_try E data_uri dest_folder default_filename f =
     (if \<not> startswith data_uri ''data:'' then (Inr None, f)
      else
        (case str_split1 CHR '','' data_uri of
           [header, b64data] \<Rightarrow>
             (let mime_part = str_before CHR '';'' header
              in case item (str_split CHR '':'' mime_part) 1 of
                   Inl e \<Rightarrow> (Inl e, f)
                 | Inr mime_type \<Rightarrow>
                     (case item (str_split CHR ''/'' mime_type) 1 of
                        Inl e \<Rightarrow> (Inl e, f)
                      | Inr ext \<Rightarrow>
                          (let filename = default_filename @ ''.'' @ ext;
                               dest_path = os_path_join dest_folder filename
                           in case open_write E f dest_path of
                                Inl e \<Rightarrow> (Inl e, f)
                              | Inr f1 \<Rightarrow>
                                  (case b64decode b64data of
                                     Inl e \<Rightarrow> (Inl e, f1)
                                   | Inr data \<Rightarrow> (Inr (Some dest_path), f1(dest_path \<mapsto> File data))))))
         | _ \<Rightarrow> (Inl ValueError, f)))"

definition save_data_uri_as_file ::
  "env \<Rightarrow> string \<Rightarrow> path \<Rightarrow> string \<Rightarrow> world \<Rightarrow> path option \<times> world" where
  "save_data_uri_as_file E data_uri dest_folder default_filename w =
     (case save_try E data_uri dest_folder default_filename (files w) of
        (Inr res, f) \<Rightarrow> (res, w\<lparr>files := f\<rparr>)
      | (Inl e, f) \<Rightarrow> (None, st_show (DataUriError e) (w\<lparr>files := f\<rparr>)))"

definition embed_image_as_data_uri :: "env \<Rightarrow> path \<Rightarrow> world \<Rightarrow> string \<times> world" where
  "embed_image_as_data_uri E image_path w =
     (if \<not> os_path_exists (files w) image_path then ([], w)
      else
        (let ext = lower (drop 1 (splitext_ext image_path));
             mime = (if ext = ''svg'' then ''image/svg+xml'' else ''image/'' @ ext)
         in case read_bytes E (files w) image_path of
              Inr data \<Rightarrow> (''data:'' @ mime @ '';base64,'' @ b64encode data, w)
            | Inl e \<Rightarrow> ([], st_show (EmbedError e) w)))"

subsection \<open>\<open>process_csv\<close>\<close>

definition package_identifier :: "string option \<Rightarrow> nat \<Rightarrow> row \<Rightarrow> string" where
  \<comment> \<open>lines 210 to 213; \<open>None\<close> and the empty name are both false\<close>
  "package_identifier naming_variable row_index r =
     (case naming_variable of
        None \<Rightarrow> str_of_nat row_index
      | Some nv \<Rightarrow>
          (if nv \<noteq> [] then
             (case map_of r nv of
                Some (Str v) \<Rightarrow> (if v \<noteq> [] then v else str_of_nat row_index)
              | _ \<Rightarrow> str_of_nat row_index)
           else str_of_nat row_index))"

definition resolve_column :: "env \<Rightarrow> path \<Rightarrow> string \<Rightarrow> row \<Rightarrow> world \<Rightarrow> row \<times> world" where
  \<comment> \<open>the body of the loop over the image columns, lines 221 to 237\<close>
  "resolve_column E package_folder col r w =
     (case map_of r col of
        Some (Str v) \<Rightarrow>
          (if v = [] then (r, w)
           else if startswith v ''http'' then
             (case download_image E v package_folder w of
                (Some image_path, w') \<Rightarrow>
                  (if image_path \<noteq> [] then (setitem r col (Str (os_path_basename image_path)), w')
                   else (setitem r col (Str v), w'))
              | (None, w') \<Rightarrow> (setitem r col (Str v), w'))
           else if startswith v ''data:'' then
             (case save_data_uri_as_file E v package_folder col w of
                (Some image_path, w') \<Rightarrow>
                  (if image_path \<noteq> [] then (setitem r col (Str (os_path_basename image_path)), w')
                   else (setitem r col (Str v), w'))
              | (None, w') \<Rightarrow> (setitem r col (Str v), w'))
           else (setitem r col (Str v), w))
      | _ \<Rightarrow> (r, w))"

fun resolve_columns :: "env \<Rightarrow> path \<Rightarrow> string list \<Rightarrow> row \<Rightarrow> world \<Rightarrow> row \<times> world" where
  "resolve_columns E package_folder [] r w = (r, w)"
| "resolve_columns E package_folder (col # cols) r w =
     (case resolve_column E package_folder col r w of
        (r', w') \<Rightarrow> resolve_columns E package_folder cols r' w')"


definition prepare_row ::
  "env \<Rightarrow> string option \<Rightarrow> string list option \<Rightarrow> nat \<Rightarrow> row \<Rightarrow> world
     \<Rightarrow> (exn + string \<times> path) \<times> row \<times> world" where
  \<comment> \<open>lines 210 to 237: the identifier, the package folder and the image columns;
      \<open>os.makedirs\<close> is outside every \<open>try\<close>\<close>
  "prepare_row E naming_variable dynamic_image_columns row_index r w =
     (let pid = package_identifier naming_variable row_index r;
          package_folder = os_path_join OUTPUT_FOLDER pid
      in case os_makedirs E package_folder (files w) of
           (Some e, f0) \<Rightarrow> (Inl e, r, w\<lparr>files := f0\<rparr>)
         | (None, f0) \<Rightarrow>
             (case dynamic_image_columns of
                None \<Rightarrow> (Inr (pid, package_folder), r, w\<lparr>files := f0\<rparr>)
              | Some cols \<Rightarrow>
                  (case resolve_columns E package_folder cols r (w\<lparr>files := f0\<rparr>) of
                     (r1, w1) \<Rightarrow> (Inr (pid, package_folder), r1, w1))))"





subsection \<open>\<open>inline_base_images\<close>\<close>

definition is_quote :: "char \<Rightarrow> bool" where
  "is_quote c = (c = CHR 0x22 \<or> c = CHR 0x27)"

fun lazy_group :: "string \<Rightarrow> (string \<times> char) option" where
  \<comment> \<open>\<open>(.*?)["']\<close>: up to the first quote, which no newline may precede\<close>
  "lazy_group [] = None"
| "lazy_group (c # cs) =
     (if is_quote c then Some ([], c)
      else if c = CHR 0x0A then None
      else (case lazy_group cs of None \<Rightarrow> None | Some (g, q) \<Rightarrow> Some (c # g, q)))"

definition src_match :: "string \<Rightarrow> (string \<times> string) option" where
  \<comment> \<open>the pattern \<open>src=["'](.*?)["']\<close> at the start of the text: the match and its group\<close>
  "src_match s =
     (if startswith s ''src='' then
        (case drop 4 s of
           [] \<Rightarrow> None
         | q # t \<Rightarrow>
             (if is_quote q then
                (case lazy_group t of
                   None \<Rightarrow> None
                 | Some (g, q') \<Rightarrow> Some (''src='' @ [q] @ g @ [q'], g))
              else None))
      else None)"

fun re_sub ::
  "(string \<Rightarrow> string \<Rightarrow> world \<Rightarrow> string \<times> world) \<Rightarrow> nat \<Rightarrow> string \<Rightarrow> world \<Rightarrow> string \<times> world" where
  \<comment> \<open>\<open>pattern.sub(repl, text)\<close>: the matches from left to right, without overlap; the
      counter skips the rest of a match\<close>
  "re_sub repl k [] w = ([], w)"
| "re_sub repl (Suc k) (c # cs) w = re_sub repl k cs w"
| "re_sub repl 0 (c # cs) w =
     (case src_match (c # cs) of
        Some (g0, g1) \<Rightarrow>
          (case repl g0 g1 w of
             (t, w1) \<Rightarrow> (case re_sub repl (length g0 - 1) cs w1 of (rest, w2) \<Rightarrow> (t @ rest, w2)))
      | None \<Rightarrow> (case re_sub repl 0 cs w of (rest, w1) \<Rightarrow> (c # rest, w1)))"

definition replace_src :: "env \<Rightarrow> path \<Rightarrow> string \<Rightarrow> string \<Rightarrow> world \<Rightarrow> string \<times> world" where
  \<comment> \<open>\<open>g0\<close> is \<open>match.group(0)\<close>, \<open>src\<close> is \<open>match.group(1)\<close>\<close>
  "replace_src E base_folder g0 src w =
     (if startswith src ''data:'' then (g0, w)
      else
        (let file_path = os_path_join base_folder src
         in if os_path_exists (files w) file_path then
              (case embed_image_as_data_uri E file_path w of
                 (data_uri, w') \<Rightarrow> (str_replace g0 src data_uri, w'))
            else (g0, w)))"

definition inline_base_images :: "env \<Rightarrow> string \<Rightarrow> path \<Rightarrow> world \<Rightarrow> string \<times> world" where
  "inline_base_images E html_text base_folder w = re_sub (replace_src E base_folder) 0 html_text w"

section \<open>Notions used in the statements\<close>



definition first_match :: "('a \<Rightarrow> bool) \<Rightarrow> 'a list \<Rightarrow> 'a \<Rightarrow> bool" where
  \<comment> \<open>\<open>x\<close> is the first element of the list, in its order, that satisfies \<open>P\<close>\<close>
  "first_match P xs x = (\<exists>pre post. xs = pre @ x # post \<and> P x \<and> (\<forall>y\<in>set pre. \<not> P y))"

section \<open>Example environments\<close>

text \<open>Concrete worlds at which the theorems below are instantiated.\<close>

definition world_empty :: world where
  "world_empty = \<lparr>files = Map.empty, shown = []\<rparr>"

definition env_offline :: env where
  \<comment> \<open>no network; every template compiles and renders to its own text; the operating
      system refuses nothing\<close>
  "env_offline =
     \<lparr>TEMPLATE_TEMP_FOLDER = ''/tmp/template_x'',
      http = (\<lambda>u. Inl RequestException),
      html_parser = (\<lambda>b. Inr []),
      jinja2_Template = (\<lambda>t. Inr (\<lambda>r. Inr t)),
      open_error = (\<lambda>f p. None),
      os_makedirs = (\<lambda>p f. (None, f(p \<mapsto> Dir))),
      shutil_copytree = (\<lambda>a b f. (None, f)),
      shutil_make_archive = (\<lambda>a b f. (None, f(a @ ''.zip'' \<mapsto> File [])))\<rparr>"

definition env_page :: "nat \<Rightarrow> node list \<Rightarrow> env" where
  \<comment> \<open>every URL answers with the given status and a body that parses to the given nodes\<close>
  "env_page status ns =
     env_offline\<lparr>http := (\<lambda>u. Inr \<lparr>status_code = status, content = []\<rparr>),
                 html_parser := (\<lambda>b. Inr ns)\<rparr>"

definition page_full :: "node list" where
  \<comment> \<open>a page with a heading, an image in its wrapper and a lead\<close>
  "page_full =
     [Tag ''h1'' [] [] [Text '' Hello ''],
      Tag ''div'' [''entry-image''] [] [Tag ''img'' [] [(''src'', ''a.png'')] []],
      Tag ''div'' [''entry-lead''] [] [Text ''Lead'']]"




section \<open>Enrichment: \<open>process_scrape_csv\<close>\<close>

lemma map_of_setitem: "map_of (setitem r k v) = (map_of r)(k \<mapsto> v)"
  by (rule ext) (simp add: setitem_def AList.update_conv)

lemma scrape_column_truthy:
  assumes "map_of r (''url'' @ n) = Some (Str u)" "u \<noteq> []" "scrap_page E u w = (d, w')"
  shows "scrape_column E n r w =
    (Inr (setitem (setitem (setitem (setitem r (''url'' @ n) (Str u))
      (''title'' @ n) (Str (title d))) (''img'' @ n) (Str (img d))) (''lead'' @ n) (Str (lead d))), w')"
  using assms by (simp add: scrape_column_def)

lemma scrape_column_falsy:
  assumes "map_of r (''url'' @ n) = Some v" "\<not> truthy v"
  shows "scrape_column E n r w =
    (Inr (setitem (setitem (setitem (setitem r (''url'' @ n) v)
      (''title'' @ n) (Str [])) (''img'' @ n) (Str [])) (''lead'' @ n) (Str [])), w)"
  using assms by (cases v) (simp_all add: scrape_column_def getitem_def)

lemma scrape_column_absent:
  "map_of r (''url'' @ n) = None \<Longrightarrow> scrape_column E n r w = (Inl (KeyError (''url'' @ n)), w)"
  by (simp add: scrape_column_def getitem_def)

lemma scrape_column_present:
  assumes "map_of r (''url'' @ n) = Some v"
  shows "\<exists>r' w' t i l. scrape_column E n r w = (Inr r', w') \<and>
           map_of r' = (map_of r)(''title'' @ n \<mapsto> Str t, ''img'' @ n \<mapsto> Str i, ''lead'' @ n \<mapsto> Str l)"
proof (cases "truthy v")
  case True
  then obtain u where u: "v = Str u" "u \<noteq> []" by (cases v) auto
  obtain d w' where s: "scrap_page E u w = (d, w')" by (cases "scrap_page E u w")
  have m: "(map_of r)(''url'' @ n \<mapsto> Str u) = map_of r"
    using assms u by (simp add: map_upd_triv)
  show ?thesis
    unfolding scrape_column_truthy [OF assms [unfolded u(1)] u(2) s]
    by (intro exI conjI, rule refl) (simp only: map_of_setitem m)
next
  case False
  have m: "(map_of r)(''url'' @ n \<mapsto> v) = map_of r"
    using assms by (simp add: map_upd_triv)
  show ?thesis
    unfolding scrape_column_falsy [OF assms False]
    by (intro exI conjI, rule refl) (simp only: map_of_setitem m)
qed

text \<open>
  When both URL columns are in the row (with any value, empty and \<open>None\<close> included), the
  loop body returns and the row has the six derived keys on top of its own.
\<close>

lemma enrich_row_present:
  assumes "map_of r ''url1'' = Some v1" "map_of r ''url2'' = Some v2"
  shows "\<exists>r' w' t1 i1 l1 t2 i2 l2. enrich_row E r w = (Inr r', w') \<and>
     map_of r' = (map_of r)(''title1'' \<mapsto> Str t1, ''img1'' \<mapsto> Str i1, ''lead1'' \<mapsto> Str l1,
                            ''title2'' \<mapsto> Str t2, ''img2'' \<mapsto> Str i2, ''lead2'' \<mapsto> Str l2)"
proof -
  from scrape_column_present [of r "''1''" v1 E w] assms(1)
  obtain r1 w1 t1 i1 l1 where 1: "scrape_column E ''1'' r w = (Inr r1, w1)"
    and m1: "map_of r1 = (map_of r)(''title1'' \<mapsto> Str t1, ''img1'' \<mapsto> Str i1, ''lead1'' \<mapsto> Str l1)"
    by auto
  have "map_of r1 (''url'' @ ''2'') = Some v2" using assms(2) by (simp add: m1)
  from scrape_column_present [OF this, of E w1]
  obtain r2 w2 t2 i2 l2 where 2: "scrape_column E ''2'' r1 w1 = (Inr r2, w2)"
    and m2: "map_of r2 = (map_of r1)(''title2'' \<mapsto> Str t2, ''img2'' \<mapsto> Str i2, ''lead2'' \<mapsto> Str l2)"
    by auto
  have e: "enrich_row E r w = (Inr r2, w2)" by (simp add: enrich_row_def 1 2)
  show ?thesis
    by (rule exI [of _ r2], rule exI [of _ w2], rule exI [of _ t1], rule exI [of _ i1],
        rule exI [of _ l1], rule exI [of _ t2], rule exI [of _ i2], rule exI [of _ l2])
       (simp only: e m2 m1 simp_thms)
qed

text \<open>A row without the \<open>url1\<close> key makes the loop body raise, whatever else it holds.\<close>

lemma enrich_row_absent:
  "map_of r ''url1'' = None \<Longrightarrow> enrich_row E r w = (Inl (KeyError ''url1''), w)"
  using scrape_column_absent [of r "''1''" E w] by (simp add: enrich_row_def)

text \<open>
  Likewise a row with the \<open>url1\<close> key and without the \<open>url2\<close> key: the second half of
  the loop body raises after the first has returned.
\<close>

lemma enrich_row_url2_absent:
  assumes "map_of r ''url1'' = Some v1" "map_of r ''url2'' = None"
  shows "\<exists>w'. enrich_row E r w = (Inl (KeyError ''url2''), w')"
proof -
  from scrape_column_present [of r "''1''" v1 E w] assms(1)
  obtain r1 w1 t1 i1 l1 where 1: "scrape_column E ''1'' r w = (Inr r1, w1)"
    and m1: "map_of r1 = (map_of r)(''title1'' \<mapsto> Str t1, ''img1'' \<mapsto> Str i1, ''lead1'' \<mapsto> Str l1)"
    by auto
  have "map_of r1 (''url'' @ ''2'') = None" using assms(2) by (simp add: m1)
  from scrape_column_absent [OF this, of E w1] 1 show ?thesis
    by (simp add: enrich_row_def)
qed

text \<open>
  Claim C1. Enrichment should return for every list of rows, with the keys \<open>title1\<close>,
  \<open>img1\<close>, \<open>lead1\<close>, \<open>title2\<close>, \<open>img2\<close>, \<open>lead2\<close> in every row, also when the \<open>url1\<close> or
  \<open>url2\<close> column is absent. The code tests \<open>"url1" in row\<close> and then, in the \<open>else\<close>
  branch, reads \<open>row["url1"]\<close> all the same (line 182): for the table with the single
  column \<open>ID\<close> and the single row \<open>42\<close> the call raises \<open>KeyError\<close> instead of returning.
\<close>

theorem process_scrape_csv_url1_absent_raises:
  "process_scrape_csv env_offline [[(''ID'', Str ''42'')]] world_empty =
     (Inl (KeyError ''url1''), world_empty)"
  by (simp add: process_scrape_csv_def enrich_row_def scrape_column_def getitem_def)

section \<open>Extraction: \<open>scrap_page\<close>\<close>

text \<open>
  Claim C2, as amended. \<open>scrap_page\<close> always returns (it is a total function into the
  fields and the world). When the request raises (network failure, timeout), when the
  status is a client or server error (400 to 599), or when the parser raises, it returns
  the all-empty triple and shows one error for the URL. (Any other status, 3xx included,
  is not a failure: see the counterexample.)
\<close>

theorem scrap_page_failure_empty:
  assumes "(\<exists>e. requests_get E url = Inl e) \<or>
     (\<exists>r. requests_get E url = Inr r \<and>
        ((400 \<le> status_code r \<and> status_code r < 600) \<or> (\<exists>e. BeautifulSoup E (content r) = Inl e)))"
  shows "\<exists>e. scrap_page E url w = (no_fields, st_show (ScrapeError url e) w)"
  using assms
  by (auto simp: scrap_page_def scrap_page_try_def raise_for_status_def split: sum.splits)

theorem scrap_page_failure_empty_witness:
  "requests_get (env_page 404 []) ''https://example.com/a'' = Inr \<lparr>status_code = 404, content = []\<rparr>
   \<and> (\<exists>e. scrap_page (env_page 404 []) ''https://example.com/a'' world_empty =
          (no_fields, st_show (ScrapeError ''https://example.com/a'' e) world_empty))"
proof -
  have r: "requests_get (env_page 404 []) ''https://example.com/a'' = Inr \<lparr>status_code = 404, content = []\<rparr>"
    by (simp add: requests_get_def is_http_url_def startswith_def lower_def lower_char_def
        lstrip_def isspace_def env_page_def env_offline_def)
  show ?thesis
    using r scrap_page_failure_empty [of "env_page 404 []" "''https://example.com/a''" world_empty]
    by simp
qed

text \<open>
  Claim C2 as stated fails for a status that is neither 2xx nor an error code: a response
  with status 300 is parsed like any other, its heading is returned and nothing is shown.
\<close>

theorem scrap_page_status_300_counterexample:
  "requests_get (env_page 300 [Tag ''h1'' [] [] [Text ''Moved'']]) ''https://example.com/a'' =
     Inr \<lparr>status_code = 300, content = []\<rparr>
   \<and> scrap_page (env_page 300 [Tag ''h1'' [] [] [Text ''Moved'']]) ''https://example.com/a'' world_empty =
     (\<lparr>title = ''Moved'', img = [], lead = []\<rparr>, world_empty)"
  by (simp add: scrap_page_def scrap_page_try_def requests_get_def is_http_url_def startswith_def
      lower_def lower_char_def lstrip_def isspace_def env_page_def env_offline_def
      raise_for_status_def BeautifulSoup_def extract_fields_def lead_text_def find_tag_def
      select_one_class_def select_one_child_def get_text_def strip_def)

text \<open>
  Claim C5. The lead that \<open>scrap_page\<close> returns has at most 150 characters, for every
  environment and URL; it is the first 150 characters of the lead text, cut wherever
  the 150th character falls.
\<close>

theorem scrap_page_lead_at_most_150:
  "length (lead (fst (scrap_page E url w))) \<le> 150
   \<and> lead (extract_fields soup) = take 150 (lead_text soup)"
  by (auto simp: scrap_page_def scrap_page_try_def extract_fields_def no_fields_def
      split: sum.splits)

theorem scrap_page_lead_at_most_150_witness:
  "length (lead (fst (scrap_page (env_page 200 page_full) ''https://example.com/a'' world_empty))) \<le> 150"
  using scrap_page_lead_at_most_150 [of "env_page 200 page_full" "''https://example.com/a''" world_empty]
  by blast

section \<open>Facts about strings and paths\<close>

lemma takeWhile_neq_all: "c \<notin> set s \<Longrightarrow> takeWhile (\<lambda>x. x \<noteq> c) s = s"
  by (induction s) auto

lemma takeWhile_neq_first: "c \<notin> set a \<Longrightarrow> takeWhile (\<lambda>x. x \<noteq> c) (a @ c # b) = a"
  by (induction a) auto

lemma dropWhile_neq_first: "c \<notin> set a \<Longrightarrow> dropWhile (\<lambda>x. x \<noteq> c) (a @ c # b) = c # b"
  by (induction a) auto

lemma takeWhile_neq_append: "c \<notin> set a \<Longrightarrow> takeWhile (\<lambda>x. x \<noteq> c) (a @ b) = a @ takeWhile (\<lambda>x. x \<noteq> c) b"
  by (induction a) auto

lemma basename_slash: "os_path_basename (a @ CHR ''/'' # b) = os_path_basename b"
  by (simp add: os_path_basename_def takeWhile_tail)

lemma basename_join: "os_path_basename (os_path_join a b) = os_path_basename b"
proof (cases "a = [] \<or> startswith b ''/''")
  case True
  then show ?thesis by (auto simp: os_path_join_def)
next
  case False
  then have a: "a \<noteq> []" and b: "\<not> startswith b ''/''" by auto
  show ?thesis
  proof (cases "last a = CHR ''/''")
    case True
    with a have "a = butlast a @ [CHR ''/'']" by (metis append_butlast_last_id)
    then have "a @ b = butlast a @ CHR ''/'' # b" by (metis append_Cons append_Nil append_assoc)
    then have "os_path_basename (a @ b) = os_path_basename b" by (simp only: basename_slash)
    then show ?thesis using a b True by (simp add: os_path_join_def)
  next
    case False
    then show ?thesis using a b by (simp add: os_path_join_def basename_slash)
  qed
qed

lemma join_nonempty: "b \<noteq> [] \<Longrightarrow> os_path_join a b \<noteq> []"
  by (simp add: os_path_join_def)

lemma basename_no_slash: "CHR ''/'' \<notin> set b \<Longrightarrow> os_path_basename b = b"
  by (simp add: os_path_basename_def takeWhile_neq_all)

lemma basename_append: "CHR ''/'' \<notin> set b \<Longrightarrow> os_path_basename (a @ b) = os_path_basename a @ b"
  by (simp add: os_path_basename_def takeWhile_neq_append)

lemma splitext_ext_dot:
  assumes "CHR ''/'' \<notin> set sub" "CHR ''.'' \<notin> set sub"
    and "filter (\<lambda>c. c \<noteq> CHR ''.'') (os_path_basename name) \<noteq> []"
  shows "splitext_ext (os_path_join dest (name @ ''.'' @ sub)) = CHR ''.'' # sub"
proof -
  have b: "os_path_basename (os_path_join dest (name @ ''.'' @ sub)) = os_path_basename name @ CHR ''.'' # sub"
    using assms(1) basename_append [of "CHR ''.'' # sub" name] by (simp add: basename_join)
  have e: "rev (takeWhile (\<lambda>c. c \<noteq> CHR ''.'') (rev (os_path_basename name @ CHR ''.'' # sub))) = sub"
    using assms(2) takeWhile_neq_first [of "CHR ''.''" "rev sub" "rev (os_path_basename name)"] by simp
  show ?thesis
    unfolding splitext_ext_def b Let_def e using assms(3) by simp
qed

lemma str_split_none: "sep \<notin> set s \<Longrightarrow> str_split sep s = [s]"
  by (induction s) auto

lemma str_split_first: "sep \<notin> set a \<Longrightarrow> str_split sep (a @ sep # b) = a # str_split sep b"
  by (induction a) auto

lemma str_split1_first: "sep \<notin> set a \<Longrightarrow> str_split1 sep (a @ sep # b) = [a, b]"
  by (simp add: str_split1_def takeWhile_neq_first dropWhile_neq_first)

lemma str_before_first: "sep \<notin> set a \<Longrightarrow> str_before sep (a @ sep # b) = a"
  by (simp add: str_before_def takeWhile_neq_first)

section \<open>Packaging: \<open>process_csv\<close>\<close>

text \<open>
  \<open>str_of_nat\<close> writes the decimal digits: reading them back gives the number. The
  identifier that the loop body uses for a row is \<open>package_identifier\<close> at the row's
  number, and the folder is named after it.
\<close>

lemma digit_char_value:
  assumes "d < 10"
  shows "(of_char (digit_char d) :: nat) = 48 + d"
proof -
  from assms have "d = 0 \<or> d = 1 \<or> d = 2 \<or> d = 3 \<or> d = 4 \<or> d = 5 \<or> d = 6 \<or> d = 7 \<or> d = 8 \<or> d = 9"
    by arith
  then show ?thesis by (elim disjE) (simp_all add: digit_char_def)
qed

lemma str_of_nat_decimal: "foldl (\<lambda>a c. 10 * a + ((of_char c :: nat) - 48)) 0 (str_of_nat n) = n"
proof (induction n rule: str_of_nat.induct)
  case (1 n)
  show ?case
  proof (cases "n < 10")
    case True
    then show ?thesis by (subst str_of_nat.simps) (simp add: digit_char_value)
  next
    case False
    have "n mod 10 < 10" by simp
    with False 1 show ?thesis
      by (subst str_of_nat.simps) (simp add: digit_char_value)
  qed
qed

lemma prepare_row_identifier:
  "prepare_row E nv cols i r w = (Inr (pid, folder), r1, w1) \<Longrightarrow>
     pid = package_identifier nv i r \<and> folder = os_path_join OUTPUT_FOLDER pid"
  by (auto simp: prepare_row_def Let_def split: prod.splits option.splits)

text \<open>
  Claim C4. The package identifier is the value of the naming column when a naming
  column is given (a non-empty name), the row has it, and its value is a non-empty
  string; in every other case it is the decimal rendering of the row number, which
  \<open>process_csv\<close> counts from 1 (\<open>process_csv_at_row\<close> below: the row after \<open>pre\<close> is
  processed with the number \<open>Suc (length pre)\<close>).
\<close>

theorem package_identifier_naming:
  "(naming_variable = Some nv \<and> nv \<noteq> [] \<and> map_of r nv = Some (Str v) \<and> v \<noteq> [] \<longrightarrow>
      package_identifier naming_variable row_index r = v)
   \<and> (naming_variable = None \<or> naming_variable = Some [] \<or>
        (naming_variable = Some nv \<and>
          (map_of r nv = None \<or> map_of r nv = Some PyNone \<or> map_of r nv = Some (Str []))) \<longrightarrow>
      package_identifier naming_variable row_index r = str_of_nat row_index)"
  by (auto simp: package_identifier_def)

theorem package_identifier_naming_witness:
  "map_of [(''ID'', Str ''42'')] ''ID'' = Some (Str ''42'')
   \<and> package_identifier (Some ''ID'') 1 [(''ID'', Str ''42'')] = ''42''
   \<and> package_identifier None 1 [(''ID'', Str ''42'')] = ''1''"
  using package_identifier_naming [of "Some ''ID''" "''ID''" "[(''ID'', Str ''42'')]" "''42''" 1]
    package_identifier_naming [of None "''ID''" "[(''ID'', Str ''42'')]" "''42''" 1]
  by (simp add: str_of_nat.simps digit_char_def)














section \<open>Image resolution\<close>

lemma open_write_ok:
  "f p \<noteq> Some Dir \<Longrightarrow> open_error E f p = None \<Longrightarrow> open_write E f p = Inr (f(p \<mapsto> File []))"
  by (simp add: open_write_def split: option.splits entry.splits)

lemma save_try_image:
  assumes sub: "CHR '':'' \<notin> set sub" "CHR '';'' \<notin> set sub" "CHR '','' \<notin> set sub" "CHR ''/'' \<notin> set sub"
    and dec: "b64decode payload = Inr d"
    and nd: "f (os_path_join dest (name @ ''.'' @ sub)) \<noteq> Some Dir"
    and wr: "open_error E f (os_path_join dest (name @ ''.'' @ sub)) = None"
  shows "save_try E (''data:image/'' @ sub @ '';base64,'' @ payload) dest name f =
           (Inr (Some (os_path_join dest (name @ ''.'' @ sub))),
            f(os_path_join dest (name @ ''.'' @ sub) \<mapsto> File d))"
proof -
  let ?uri = "''data:image/'' @ sub @ '';base64,'' @ payload"
  have u: "?uri = (''data:image/'' @ sub @ '';base64'') @ CHR '','' # payload" by simp
  have s1: "str_split1 CHR '','' ?uri = [''data:image/'' @ sub @ '';base64'', payload]"
    unfolding u using sub(3) by (intro str_split1_first) simp
  have h: "''data:image/'' @ sub @ '';base64'' = (''data:image/'' @ sub) @ CHR '';'' # ''base64''" by simp
  have s2: "str_before CHR '';'' (''data:image/'' @ sub @ '';base64'') = ''data:image/'' @ sub"
    unfolding h using sub(2) by (intro str_before_first) simp
  show ?thesis
    using sub dec nd wr s1 s2
    by (simp add: save_try_def startswith_def str_split_none item_def open_write_ok Let_def)
qed

lemma save_data_uri_as_file_image:
  assumes "CHR '':'' \<notin> set sub" "CHR '';'' \<notin> set sub" "CHR '','' \<notin> set sub" "CHR ''/'' \<notin> set sub"
    and "b64decode payload = Inr d"
    and "files w (os_path_join dest (name @ ''.'' @ sub)) \<noteq> Some Dir"
    and "open_error E (files w) (os_path_join dest (name @ ''.'' @ sub)) = None"
  shows "save_data_uri_as_file E (''data:image/'' @ sub @ '';base64,'' @ payload) dest name w =
           (Some (os_path_join dest (name @ ''.'' @ sub)),
            w\<lparr>files := (files w)(os_path_join dest (name @ ''.'' @ sub) \<mapsto> File d)\<rparr>)"
  using save_try_image [OF assms] by (simp add: save_data_uri_as_file_def)

lemma b64decode_QQ: "b64decode ''QQ=='' = Inr [0x41]"
  by (simp add: b64decode_def b64_value_def emit_def)

text \<open>
  Claim C7. For a row whose \<open>img1\<close> column holds \<open>data:image/webp;base64,QQ==\<close>,
  resolving the column into a destination directory (one where the operating system
  lets the file be opened) writes the file \<open>img1.webp\<close> of that directory with the single
  byte \<open>0x41\<close>, changes no other file, and puts the basename \<open>img1.webp\<close> in the column.
\<close>

theorem resolve_inline_webp:
  assumes "map_of r ''img1'' = Some (Str ''data:image/webp;base64,QQ=='')"
    and "files w (os_path_join dest ''img1.webp'') \<noteq> Some Dir"
    and "open_error E (files w) (os_path_join dest ''img1.webp'') = None"
  shows "resolve_column E dest ''img1'' r w =
           (setitem r ''img1'' (Str ''img1.webp''),
            w\<lparr>files := (files w)(os_path_join dest ''img1.webp'' \<mapsto> File [0x41])\<rparr>)"
proof -
  have s: "save_data_uri_as_file E (''data:image/'' @ ''webp'' @ '';base64,'' @ ''QQ=='') dest ''img1'' w =
      (Some (os_path_join dest (''img1'' @ ''.'' @ ''webp'')),
       w\<lparr>files := (files w)(os_path_join dest (''img1'' @ ''.'' @ ''webp'') \<mapsto> File [0x41])\<rparr>)"
    using assms(2,3) by (intro save_data_uri_as_file_image b64decode_QQ) simp_all
  have b: "os_path_basename (os_path_join dest ''img1.webp'') = ''img1.webp''"
    by (simp add: basename_join basename_no_slash)
  have n: "os_path_join dest ''img1.webp'' \<noteq> []" by (rule join_nonempty) simp
  show ?thesis
    using assms(1) s b n by (simp add: resolve_column_def startswith_def)
qed

theorem resolve_inline_webp_witness:
  "map_of [(''ID'', Str ''42''), (''img1'', Str ''data:image/webp;base64,QQ=='')] ''img1'' =
      Some (Str ''data:image/webp;base64,QQ=='')
   \<and> [''generated_mails/42'' \<mapsto> Dir] (os_path_join ''generated_mails/42'' ''img1.webp'') \<noteq> Some Dir
   \<and> open_error env_offline [''generated_mails/42'' \<mapsto> Dir] (os_path_join ''generated_mails/42'' ''img1.webp'') = None
   \<and> fst (resolve_column env_offline ''generated_mails/42'' ''img1''
          [(''ID'', Str ''42''), (''img1'', Str ''data:image/webp;base64,QQ=='')]
          \<lparr>files = [''generated_mails/42'' \<mapsto> Dir], shown = []\<rparr>) =
       [(''ID'', Str ''42''), (''img1'', Str ''img1.webp'')]
   \<and> files (snd (resolve_column env_offline ''generated_mails/42'' ''img1''
          [(''ID'', Str ''42''), (''img1'', Str ''data:image/webp;base64,QQ=='')]
          \<lparr>files = [''generated_mails/42'' \<mapsto> Dir], shown = []\<rparr>)) ''generated_mails/42/img1.webp'' =
       Some (File [0x41])"
proof -
  let ?r = "[(''ID'', Str ''42''), (''img1'', Str ''data:image/webp;base64,QQ=='')]"
  let ?w = "\<lparr>files = [''generated_mails/42'' \<mapsto> Dir], shown = []\<rparr>"
  have j: "os_path_join ''generated_mails/42'' ''img1.webp'' = ''generated_mails/42/img1.webp''"
    by (simp add: os_path_join_def startswith_def)
  have 1: "map_of ?r ''img1'' = Some (Str ''data:image/webp;base64,QQ=='')" by simp
  have 2: "files ?w (os_path_join ''generated_mails/42'' ''img1.webp'') \<noteq> Some Dir"
    by (simp add: j)
  have 3: "open_error env_offline (files ?w) (os_path_join ''generated_mails/42'' ''img1.webp'') = None"
    by (simp add: env_offline_def)
  show ?thesis
    using 1 2 3 resolve_inline_webp [OF 1 2 3]
    by (simp add: j setitem_def)
qed

text \<open>
  A string that starts with \<open>http\<close> and is not a URL that \<open>requests\<close> can fetch goes to
  \<open>download_image\<close>, where the request raises before any file is opened.
\<close>

lemma setitem_same: "map_of r k = Some v \<Longrightarrow> setitem r k v = r"
  by (simp add: setitem_def AList.update_triv)

lemma download_image_not_url:
  assumes "\<not> is_http_url v" "v \<noteq> []" "\<not> startswith v ''data:''"
  shows "download_image E v folder w = (None, st_show (DownloadError v InvalidSchema) w)"
  using assms by (simp add: download_image_def download_try_def requests_get_def)

text \<open>
  Claim C8. An image column whose value is neither an HTTP(S) URL nor inline data (it
  does not start with \<open>data:\<close>) keeps its value, and resolving it changes no file; when
  the value does not even start with \<open>http\<close> (the last arm of the dispatch), nothing
  at all happens, no message included.
\<close>

theorem resolve_opaque_unchanged:
  assumes "map_of r col = Some (Str v)" and "\<not> is_http_url v" and "\<not> startswith v ''data:''"
  shows "fst (resolve_column E folder col r w) = r
       \<and> files (snd (resolve_column E folder col r w)) = files w
       \<and> (\<not> startswith v ''http'' \<longrightarrow> snd (resolve_column E folder col r w) = w)"
proof (cases "v = []")
  case True
  with assms(1) show ?thesis by (simp add: resolve_column_def)
next
  case False
  show ?thesis
  proof (cases "startswith v ''http''")
    case True
    with assms False show ?thesis
      by (simp add: resolve_column_def download_image_not_url setitem_same st_show_def)
  next
    case h: False
    with assms False show ?thesis
      by (simp add: resolve_column_def setitem_same)
  qed
qed

theorem resolve_opaque_unchanged_witness:
  "map_of [(''ID'', Str ''42''), (''img1'', Str ''httpfoo.png'')] ''img1'' = Some (Str ''httpfoo.png'')
   \<and> \<not> is_http_url ''httpfoo.png'' \<and> \<not> startswith ''httpfoo.png'' ''data:''
   \<and> fst (resolve_column env_offline ''generated_mails/42'' ''img1''
          [(''ID'', Str ''42''), (''img1'', Str ''httpfoo.png'')] world_empty) =
       [(''ID'', Str ''42''), (''img1'', Str ''httpfoo.png'')]
   \<and> files (snd (resolve_column env_offline ''generated_mails/42'' ''img1''
          [(''ID'', Str ''42''), (''img1'', Str ''httpfoo.png'')] world_empty)) = files world_empty"
proof -
  let ?r = "[(''ID'', Str ''42''), (''img1'', Str ''httpfoo.png'')]"
  have 1: "map_of ?r ''img1'' = Some (Str ''httpfoo.png'')" by simp
  have 2: "\<not> is_http_url ''httpfoo.png''"
    by (simp add: is_http_url_def startswith_def lower_def lower_char_def lstrip_def isspace_def)
  have 3: "\<not> startswith ''httpfoo.png'' ''data:''" by (simp add: startswith_def)
  show ?thesis
    using 1 2 3 resolve_opaque_unchanged [OF 1 2 3, of env_offline "''generated_mails/42''" world_empty]
    by simp
qed

lemma read_bytes_file:
  "f p = Some (File d) \<Longrightarrow> open_error E f p = None \<Longrightarrow> read_bytes E f p = Inr d"
  by (simp add: read_bytes_def)

lemma embed_image_file:
  assumes "files w p = Some (File d)" and "open_error E (files w) p = None"
    and "splitext_ext p = CHR ''.'' # sub" and "lower sub = sub" and "sub \<noteq> ''svg''"
  shows "embed_image_as_data_uri E p w = (''data:image/'' @ sub @ '';base64,'' @ b64encode d, w)"
  using assms by (simp add: embed_image_as_data_uri_def os_path_exists_def read_bytes_file)

text \<open>
  Claim C6, as amended. Take an inline payload \<open>data:image/<sub>;base64,<payload>\<close> whose
  subtype is in lower case, contains none of \<open>: ; , / .\<close> and is not \<open>svg\<close>, whose
  payload decodes, and a fallback name whose last component is not made of dots only.
  When the operating system lets the file be written and read back,
  \<open>save_data_uri_as_file\<close> writes the decoded bytes to \<open><name>.<sub>\<close> in the destination
  directory, and \<open>embed_image_as_data_uri\<close> on that file gives
  \<open>data:image/<sub>;base64,\<dots>\<close>: the same MIME type.
\<close>

theorem save_then_embed_mime:
  assumes "CHR '':'' \<notin> set sub" "CHR '';'' \<notin> set sub" "CHR '','' \<notin> set sub"
      "CHR ''/'' \<notin> set sub" "CHR ''.'' \<notin> set sub"
    and "lower sub = sub" and "sub \<noteq> ''svg''"
    and "b64decode payload = Inr d"
    and "filter (\<lambda>c. c \<noteq> CHR ''.'') (os_path_basename name) \<noteq> []"
    and "files w (os_path_join dest (name @ ''.'' @ sub)) \<noteq> Some Dir"
    and "open_error E (files w) (os_path_join dest (name @ ''.'' @ sub)) = None"
    and "open_error E ((files w)(os_path_join dest (name @ ''.'' @ sub) \<mapsto> File d))
           (os_path_join dest (name @ ''.'' @ sub)) = None"
  shows "save_data_uri_as_file E (''data:image/'' @ sub @ '';base64,'' @ payload) dest name w =
           (Some (os_path_join dest (name @ ''.'' @ sub)),
            w\<lparr>files := (files w)(os_path_join dest (name @ ''.'' @ sub) \<mapsto> File d)\<rparr>)
       \<and> embed_image_as_data_uri E (os_path_join dest (name @ ''.'' @ sub))
            (w\<lparr>files := (files w)(os_path_join dest (name @ ''.'' @ sub) \<mapsto> File d)\<rparr>) =
           (''data:image/'' @ sub @ '';base64,'' @ b64encode d,
            w\<lparr>files := (files w)(os_path_join dest (name @ ''.'' @ sub) \<mapsto> File d)\<rparr>)"
proof
  show "save_data_uri_as_file E (''data:image/'' @ sub @ '';base64,'' @ payload) dest name w =
           (Some (os_path_join dest (name @ ''.'' @ sub)),
            w\<lparr>files := (files w)(os_path_join dest (name @ ''.'' @ sub) \<mapsto> File d)\<rparr>)"
    using assms(1-4,8,10,11) by (rule save_data_uri_as_file_image)
next
  let ?p = "os_path_join dest (name @ ''.'' @ sub)"
  let ?w = "w\<lparr>files := (files w)(?p \<mapsto> File d)\<rparr>"
  have e: "splitext_ext ?p = CHR ''.'' # sub"
    using assms(4,5,9) by (rule splitext_ext_dot)
  have f: "files ?w ?p = Some (File d)" by simp
  have o: "open_error E (files ?w) ?p = None" using assms(12) by simp
  show "embed_image_as_data_uri E ?p ?w = (''data:image/'' @ sub @ '';base64,'' @ b64encode d, ?w)"
    using f o e assms(6,7) by (rule embed_image_file)
qed

theorem save_then_embed_mime_witness:
  "lower ''webp'' = ''webp'' \<and> b64decode ''QQ=='' = Inr [0x41]
   \<and> save_data_uri_as_file env_offline ''data:image/webp;base64,QQ=='' ''generated_mails/42'' ''img1''
        \<lparr>files = [''generated_mails/42'' \<mapsto> Dir], shown = []\<rparr> =
       (Some ''generated_mails/42/img1.webp'',
        \<lparr>files = [''generated_mails/42'' \<mapsto> Dir, ''generated_mails/42/img1.webp'' \<mapsto> File [0x41]], shown = []\<rparr>)
   \<and> embed_image_as_data_uri env_offline ''generated_mails/42/img1.webp''
        \<lparr>files = [''generated_mails/42'' \<mapsto> Dir, ''generated_mails/42/img1.webp'' \<mapsto> File [0x41]], shown = []\<rparr> =
       (''data:image/webp;base64,QQ=='',
        \<lparr>files = [''generated_mails/42'' \<mapsto> Dir, ''generated_mails/42/img1.webp'' \<mapsto> File [0x41]], shown = []\<rparr>)"
proof -
  let ?w = "\<lparr>files = [''generated_mails/42'' \<mapsto> Dir], shown = []\<rparr>"
  have j: "os_path_join ''generated_mails/42'' (''img1'' @ ''.'' @ ''webp'') = ''generated_mails/42/img1.webp''"
    by (simp add: os_path_join_def startswith_def)
  have l: "lower ''webp'' = ''webp''" by (simp add: lower_def lower_char_def)
  have n: "filter (\<lambda>c. c \<noteq> CHR ''.'') (os_path_basename ''img1'') \<noteq> []"
    by (simp add: os_path_basename_def)
  have nd: "files ?w (os_path_join ''generated_mails/42'' (''img1'' @ ''.'' @ ''webp'')) \<noteq> Some Dir"
    using j by simp
  have wr: "open_error env_offline (files ?w) (os_path_join ''generated_mails/42'' (''img1'' @ ''.'' @ ''webp'')) = None"
    by (simp add: env_offline_def)
  have rd: "open_error env_offline ((files ?w)(os_path_join ''generated_mails/42'' (''img1'' @ ''.'' @ ''webp'') \<mapsto> File [0x41]))
      (os_path_join ''generated_mails/42'' (''img1'' @ ''.'' @ ''webp'')) = None"
    by (simp add: env_offline_def)
  have "b64encode [0x41] = ''QQ==''" by (simp add: b64_char_def b64_alphabet_def)
  with save_then_embed_mime [of "''webp''" "''QQ==''" "[0x41]" "''img1''" ?w "''generated_mails/42''" env_offline,
      OF _ _ _ _ _ l _ b64decode_QQ n nd wr rd] l b64decode_QQ
  show ?thesis using j by simp
qed

text \<open>
  Claim C6 as stated fails: the extension of the file is the MIME subtype, and the MIME
  type is rebuilt from what \<open>os.path.splitext\<close> finds after the last dot. The registered
  type \<open>image/vnd.microsoft.icon\<close> comes back as \<open>image/icon\<close>.
\<close>

theorem save_then_embed_mime_counterexample:
  "fst (save_data_uri_as_file env_offline ''data:image/vnd.microsoft.icon;base64,QQ=='' ''generated_mails/42'' ''img1''
        \<lparr>files = [''generated_mails/42'' \<mapsto> Dir], shown = []\<rparr>) =
     Some ''generated_mails/42/img1.vnd.microsoft.icon''
   \<and> fst (embed_image_as_data_uri env_offline ''generated_mails/42/img1.vnd.microsoft.icon''
        (snd (save_data_uri_as_file env_offline ''data:image/vnd.microsoft.icon;base64,QQ=='' ''generated_mails/42'' ''img1''
           \<lparr>files = [''generated_mails/42'' \<mapsto> Dir], shown = []\<rparr>))) =
     ''data:image/icon;base64,QQ=='' "
proof -
  let ?w = "\<lparr>files = [''generated_mails/42'' \<mapsto> Dir], shown = []\<rparr>"
  have j: "os_path_join ''generated_mails/42'' (''img1'' @ ''.'' @ ''vnd.microsoft.icon'') = ''generated_mails/42/img1.vnd.microsoft.icon''"
    by (simp add: os_path_join_def startswith_def)
  have s: "save_data_uri_as_file env_offline (''data:image/'' @ ''vnd.microsoft.icon'' @ '';base64,'' @ ''QQ=='') ''generated_mails/42'' ''img1'' ?w =
      (Some (os_path_join ''generated_mails/42'' (''img1'' @ ''.'' @ ''vnd.microsoft.icon'')),
       ?w\<lparr>files := (files ?w)(os_path_join ''generated_mails/42'' (''img1'' @ ''.'' @ ''vnd.microsoft.icon'') \<mapsto> File [0x41])\<rparr>)"
    using j by (intro save_data_uri_as_file_image [OF _ _ _ _ b64decode_QQ]) (simp_all add: env_offline_def)
  have x: "splitext_ext ''generated_mails/42/img1.vnd.microsoft.icon'' = ''.icon''"
    by (simp add: splitext_ext_def os_path_basename_def)
  have l: "lower ''icon'' = ''icon''" by (simp add: lower_def lower_char_def)
  have e: "b64encode [0x41] = ''QQ==''" by (simp add: b64_char_def b64_alphabet_def)
  show ?thesis
    using s x l e j
    by (simp add: embed_image_as_data_uri_def os_path_exists_def read_bytes_def env_offline_def)
qed

section \<open>What \<open>scrap_page\<close> selects\<close>

lemma find_first_match: "first_match P xs x \<Longrightarrow> List.find P xs = Some x"
  unfolding first_match_def
proof (elim exE conjE)
  fix pre post assume "xs = pre @ x # post" "P x" "\<forall>y\<in>set pre. \<not> P y"
  then show "List.find P xs = Some x"
    by (induction pre arbitrary: xs) auto
qed

lemma first_match_find: "List.find P xs = Some x \<Longrightarrow> first_match P xs x"
proof (induction xs)
  case Nil
  then show ?case by simp
next
  case (Cons a xs)
  show ?case
  proof (cases "P a")
    case True
    with Cons.prems have "x = a" by simp
    with True have "a # xs = [] @ x # xs \<and> P x \<and> (\<forall>y\<in>set []. \<not> P y)" by simp
    then show ?thesis unfolding first_match_def by blast
  next
    case False
    with Cons.prems have "List.find P xs = Some x" by simp
    from Cons.IH [OF this] obtain pre post
      where "xs = pre @ x # post" "P x" "\<forall>y\<in>set pre. \<not> P y"
      unfolding first_match_def by blast
    with False have "a # xs = (a # pre) @ x # post \<and> P x \<and> (\<forall>y\<in>set (a # pre). \<not> P y)" by simp
    then show ?thesis unfolding first_match_def by blast
  qed
qed

lemma find_no_match: "\<forall>y\<in>set xs. \<not> P y \<Longrightarrow> List.find P xs = None"
  by (simp add: find_None_iff)

lemma scrap_page_fetched:
  assumes "requests_get E url = Inr r" and "\<not> (400 \<le> status_code r \<and> status_code r < 600)"
    and "html_parser E (content r) = Inr ns"
  shows "scrap_page E url w = (extract_fields (Tag ''[document]'' [] [] ns), w)"
  using assms
  by (auto simp: scrap_page_def scrap_page_try_def raise_for_status_def BeautifulSoup_def)

lemma strip_replicate: "\<not> isspace c \<Longrightarrow> strip (replicate n c) = replicate n c"
  by (cases n) (simp_all add: strip_def replicate_append_same [symmetric] del: replicate_Suc)

text \<open>
  Claim C9, as amended. For a page that was fetched (the request returned, the status is
  not an error code, the parser returned), with \<open>D\<close> its elements in document order, each
  with its parent: the title is the text of the first \<open>h1\<close>, empty without one; the image
  is the \<open>src\<close> of the first \<open>img\<close> whose parent is a \<open>div\<close> of class \<open>entry-image\<close> (empty
  when that \<open>img\<close> has no \<open>src\<close>), empty without one; the lead is the first 150 characters
  of the text of the first \<open>div.entry-lead\<close>, else of the space-joined text of the first
  \<open>div.article__content\<close>, else empty. Nothing is shown. A page with none of these
  elements gives the all-empty triple. Enrichment (\<open>process_scrape_csv\<close>, both halves of
  the loop body) of a row that holds that URL in \<open>url1\<close> and has a \<open>url2\<close> column, with any
  value, returns the row with \<open>title1\<close>, \<open>img1\<close> and \<open>lead1\<close> set to the empty string, its
  own columns kept and the three fields of \<open>url2\<close> added.
\<close>

theorem scrap_page_selects:
  assumes "requests_get E url = Inr r" and "\<not> (400 \<le> status_code r \<and> status_code r < 600)"
    and "html_parser E (content r) = Inr ns"
    and "D = descendants (Tag ''[document]'' [] [] ns)"
    and "is_h1 = is_tag ''h1''"
    and "is_img = (\<lambda>(p, t). is_tag ''img'' t \<and> is_tag ''div'' p \<and> has_class ''entry-image'' p)"
    and "is_lead = (\<lambda>t. is_tag ''div'' t \<and> has_class ''entry-lead'' t)"
    and "is_body = (\<lambda>t. is_tag ''div'' t \<and> has_class ''article__content'' t)"
  shows "snd (scrap_page E url w) = w
    \<and> (first_match is_h1 (map snd D) h \<longrightarrow> title (fst (scrap_page E url w)) = get_text [] h)
    \<and> ((\<forall>t\<in>set (map snd D). \<not> is_h1 t) \<longrightarrow> title (fst (scrap_page E url w)) = [])
    \<and> (first_match is_img D (p, i) \<longrightarrow> img (fst (scrap_page E url w)) = get_attr i ''src'' [])
    \<and> ((\<forall>x\<in>set D. \<not> is_img x) \<longrightarrow> img (fst (scrap_page E url w)) = [])
    \<and> (first_match is_lead (map snd D) l \<longrightarrow>
          lead (fst (scrap_page E url w)) = take 150 (get_text [] l))
    \<and> ((\<forall>t\<in>set (map snd D). \<not> is_lead t) \<and> first_match is_body (map snd D) b \<longrightarrow>
          lead (fst (scrap_page E url w)) = take 150 (get_text '' '' b))
    \<and> ((\<forall>t\<in>set (map snd D). \<not> is_lead t) \<and> (\<forall>t\<in>set (map snd D). \<not> is_body t) \<longrightarrow>
          lead (fst (scrap_page E url w)) = [])
    \<and> ((\<forall>t\<in>set (map snd D). \<not> is_h1 t \<and> \<not> is_lead t \<and> \<not> is_body t) \<and> (\<forall>x\<in>set D. \<not> is_img x) \<and>
        map_of row ''url1'' = Some (Str url) \<and> url \<noteq> [] \<longrightarrow>
          scrap_page E url w = (no_fields, w) \<and>
          (\<exists>row'. scrape_column E ''1'' row w = (Inr row', w) \<and> map_of row' ''title1'' = Some (Str []) \<and>
             map_of row' ''img1'' = Some (Str []) \<and> map_of row' ''lead1'' = Some (Str [])))
    \<and> ((\<forall>t\<in>set (map snd D). \<not> is_h1 t \<and> \<not> is_lead t \<and> \<not> is_body t) \<and> (\<forall>x\<in>set D. \<not> is_img x) \<and>
        map_of row ''url1'' = Some (Str url) \<and> url \<noteq> [] \<and> map_of row ''url2'' = Some v2 \<longrightarrow>
          (\<exists>row' w' t2 i2 l2. process_scrape_csv E [row] w = (Inr [row'], w') \<and>
             map_of row' = (map_of row)(''title1'' \<mapsto> Str [], ''img1'' \<mapsto> Str [], ''lead1'' \<mapsto> Str [],
                                        ''title2'' \<mapsto> Str t2, ''img2'' \<mapsto> Str i2, ''lead2'' \<mapsto> Str l2) \<and>
             map_of row' ''title1'' = Some (Str []) \<and> map_of row' ''img1'' = Some (Str []) \<and>
             map_of row' ''lead1'' = Some (Str [])))"
proof -
  let ?soup = "Tag ''[document]'' [] [] ns"
  have sp: "scrap_page E url w = (extract_fields ?soup, w)"
    using assms(1-3) by (rule scrap_page_fetched)
  have D: "descendants ?soup = D" using assms(4) by simp
  have t1: "title (extract_fields ?soup) = get_text [] h" if "first_match is_h1 (map snd D) h"
    using find_first_match [OF that] by (simp add: extract_fields_def find_tag_def D assms(5) del: descendants.simps)
  have t2: "title (extract_fields ?soup) = []" if "\<forall>t\<in>set (map snd D). \<not> is_h1 t"
    using find_no_match [OF that] by (simp add: extract_fields_def find_tag_def D assms(5) del: descendants.simps)
  have i1: "img (extract_fields ?soup) = get_attr i ''src'' []" if "first_match is_img D (p, i)"
    using find_first_match [OF that] by (simp add: extract_fields_def select_one_child_def D assms(6) del: descendants.simps)
  have i2: "img (extract_fields ?soup) = []" if "\<forall>x\<in>set D. \<not> is_img x"
    using find_no_match [OF that] by (simp add: extract_fields_def select_one_child_def D assms(6) del: descendants.simps)
  have l1: "lead (extract_fields ?soup) = take 150 (get_text [] l)" if "first_match is_lead (map snd D) l"
    using find_first_match [OF that]
    by (simp add: extract_fields_def lead_text_def select_one_class_def D assms(7) del: descendants.simps)
  have l2: "lead (extract_fields ?soup) = take 150 (get_text '' '' b)"
    if "\<forall>t\<in>set (map snd D). \<not> is_lead t" "first_match is_body (map snd D) b"
    using find_no_match [OF that(1)] find_first_match [OF that(2)]
    by (simp add: extract_fields_def lead_text_def select_one_class_def D assms(7,8) del: descendants.simps)
  have l3: "lead (extract_fields ?soup) = []"
    if "\<forall>t\<in>set (map snd D). \<not> is_lead t" "\<forall>t\<in>set (map snd D). \<not> is_body t"
    using find_no_match [OF that(1)] find_no_match [OF that(2)]
    by (simp add: extract_fields_def lead_text_def select_one_class_def D assms(7,8) del: descendants.simps)
  have empty: "extract_fields ?soup = no_fields"
    if a: "\<forall>t\<in>set (map snd D). \<not> is_h1 t \<and> \<not> is_lead t \<and> \<not> is_body t" and b: "\<forall>x\<in>set D. \<not> is_img x"
  proof -
    from a have "title (extract_fields ?soup) = []" "lead (extract_fields ?soup) = []"
      using t2 l3 by blast+
    moreover have "img (extract_fields ?soup) = []" using i2 b by blast
    ultimately show ?thesis by (simp add: no_fields_def)
  qed
  have none: "scrap_page E url w = (no_fields, w) \<and>
          (\<exists>row'. scrape_column E ''1'' row w = (Inr row', w) \<and> map_of row' ''title1'' = Some (Str []) \<and>
             map_of row' ''img1'' = Some (Str []) \<and> map_of row' ''lead1'' = Some (Str []))"
    if a: "\<forall>t\<in>set (map snd D). \<not> is_h1 t \<and> \<not> is_lead t \<and> \<not> is_body t" and b: "\<forall>x\<in>set D. \<not> is_img x"
      and c: "map_of row ''url1'' = Some (Str url)" and d: "url \<noteq> []"
  proof -
    have s: "scrap_page E url w = (no_fields, w)" using sp empty [OF a b] by simp
    have c': "map_of row (''url'' @ ''1'') = Some (Str url)" using c by simp
    show ?thesis
      unfolding scrape_column_truthy [OF c' d s]
      by (simp add: s map_of_setitem no_fields_def)
  qed
  have whole: "\<exists>row' w' t2 i2 l2. process_scrape_csv E [row] w = (Inr [row'], w') \<and>
             map_of row' = (map_of row)(''title1'' \<mapsto> Str [], ''img1'' \<mapsto> Str [], ''lead1'' \<mapsto> Str [],
                                        ''title2'' \<mapsto> Str t2, ''img2'' \<mapsto> Str i2, ''lead2'' \<mapsto> Str l2) \<and>
             map_of row' ''title1'' = Some (Str []) \<and> map_of row' ''img1'' = Some (Str []) \<and>
             map_of row' ''lead1'' = Some (Str [])"
    if a: "\<forall>t\<in>set (map snd D). \<not> is_h1 t \<and> \<not> is_lead t \<and> \<not> is_body t" and b: "\<forall>x\<in>set D. \<not> is_img x"
      and c: "map_of row ''url1'' = Some (Str url)" and d: "url \<noteq> []" and e: "map_of row ''url2'' = Some v2"
  proof -
    have s: "scrap_page E url w = (no_fields, w)" using sp empty [OF a b] by simp
    have c': "map_of row (''url'' @ ''1'') = Some (Str url)" using c by simp
    let ?r1 = "setitem (setitem (setitem (setitem row (''url'' @ ''1'') (Str url))
      (''title'' @ ''1'') (Str (title no_fields))) (''img'' @ ''1'') (Str (img no_fields)))
      (''lead'' @ ''1'') (Str (lead no_fields))"
    have 1: "scrape_column E ''1'' row w = (Inr ?r1, w)"
      by (rule scrape_column_truthy [OF c' d s])
    have u: "(map_of row)(''url1'' \<mapsto> Str url) = map_of row"
      using c by (simp add: map_upd_triv)
    have m1: "map_of ?r1 = (map_of row)(''title1'' \<mapsto> Str [], ''img1'' \<mapsto> Str [], ''lead1'' \<mapsto> Str [])"
      using u by (simp add: map_of_setitem no_fields_def)
    have "map_of ?r1 (''url'' @ ''2'') = Some v2" using e m1 by simp
    from scrape_column_present [OF this, of E w]
    obtain r2 w2 t2 i2 l2 where 2: "scrape_column E ''2'' ?r1 w = (Inr r2, w2)"
      and m2: "map_of r2 = (map_of ?r1)(''title2'' \<mapsto> Str t2, ''img2'' \<mapsto> Str i2, ''lead2'' \<mapsto> Str l2)"
      by auto
    have p: "process_scrape_csv E [row] w = (Inr [r2], w2)"
      using 1 2 by (simp add: process_scrape_csv_def enrich_row_def)
    have m: "map_of r2 = (map_of row)(''title1'' \<mapsto> Str [], ''img1'' \<mapsto> Str [], ''lead1'' \<mapsto> Str [],
                                        ''title2'' \<mapsto> Str t2, ''img2'' \<mapsto> Str i2, ''lead2'' \<mapsto> Str l2)"
      by (simp only: m2 m1)
    have k: "map_of r2 ''title1'' = Some (Str [])" "map_of r2 ''img1'' = Some (Str [])"
        "map_of r2 ''lead1'' = Some (Str [])"
      by (simp_all add: m)
    from p m k show ?thesis by blast
  qed
  show ?thesis
    unfolding sp fst_conv snd_conv
    using t1 t2 i1 i2 l1 l2 l3 none [unfolded sp] whole by blast
qed

theorem scrap_page_selects_witness:
  "requests_get (env_page 200 []) ''https://example.com/a'' = Inr \<lparr>status_code = 200, content = []\<rparr>
   \<and> scrap_page (env_page 200 []) ''https://example.com/a'' world_empty = (no_fields, world_empty)
   \<and> fst (scrape_column (env_page 200 []) ''1''
            [(''ID'', Str ''42''), (''url1'', Str ''https://example.com/a'')] world_empty) =
       Inr [(''ID'', Str ''42''), (''url1'', Str ''https://example.com/a''),
            (''title1'', Str []), (''img1'', Str []), (''lead1'', Str [])]
   \<and> process_scrape_csv (env_page 200 [])
        [[(''ID'', Str ''42''), (''url1'', Str ''https://example.com/a''), (''url2'', Str [])]] world_empty =
       (Inr [[(''ID'', Str ''42''), (''url1'', Str ''https://example.com/a''), (''url2'', Str []),
              (''title1'', Str []), (''img1'', Str []), (''lead1'', Str []),
              (''title2'', Str []), (''img2'', Str []), (''lead2'', Str [])]], world_empty)
   \<and> first_match (is_tag ''h1'') (map snd (descendants (Tag ''[document]'' [] [] page_full)))
        (Tag ''h1'' [] [] [Text '' Hello ''])
   \<and> title (fst (scrap_page (env_page 200 page_full) ''https://example.com/a'' world_empty)) = ''Hello''"
proof -
  let ?u = "''https://example.com/a''"
  let ?row = "[(''ID'', Str ''42''), (''url1'', Str ?u)]"
  let ?row2 = "[(''ID'', Str ''42''), (''url1'', Str ?u), (''url2'', Str [])]"
  have h: "is_http_url ?u"
    by (simp add: is_http_url_def startswith_def lower_def lower_char_def lstrip_def isspace_def)
  have r: "requests_get (env_page 200 ns) ?u = Inr \<lparr>status_code = 200, content = []\<rparr>" for ns
    using h by (simp add: requests_get_def env_page_def env_offline_def)
  have s: "\<not> (400 \<le> status_code \<lparr>status_code = 200, content = []\<rparr> \<and>
             status_code \<lparr>status_code = 200, content = []\<rparr> < 600)" by simp
  have p: "html_parser (env_page 200 ns) (content \<lparr>status_code = 200, content = []\<rparr>) = Inr ns" for ns
    by (simp add: env_page_def env_offline_def)
  have d: "[] = descendants (Tag ''[document]'' [] [] [])" by simp
  have e: "scrap_page (env_page 200 []) ?u world_empty = (no_fields, world_empty) \<and>
      (\<exists>row'. scrape_column (env_page 200 []) ''1'' ?row world_empty = (Inr row', world_empty) \<and>
         map_of row' ''title1'' = Some (Str []) \<and> map_of row' ''img1'' = Some (Str []) \<and>
         map_of row' ''lead1'' = Some (Str []))"
    using scrap_page_selects [OF r s p d refl refl refl refl, of world_empty _ _ _ _ _ ?row] by simp
  then have e1: "scrap_page (env_page 200 []) ?u world_empty = (no_fields, world_empty)" by blast
  have e2: "fst (scrape_column (env_page 200 []) ''1'' ?row world_empty) =
       Inr [(''ID'', Str ''42''), (''url1'', Str ?u), (''title1'', Str []), (''img1'', Str []), (''lead1'', Str [])]"
    using e1 by (simp add: scrape_column_def setitem_def no_fields_def)
  have "\<exists>row' w' t2 i2 l2. process_scrape_csv (env_page 200 []) [?row2] world_empty = (Inr [row'], w') \<and>
         map_of row' = (map_of ?row2)(''title1'' \<mapsto> Str [], ''img1'' \<mapsto> Str [], ''lead1'' \<mapsto> Str [],
                                      ''title2'' \<mapsto> Str t2, ''img2'' \<mapsto> Str i2, ''lead2'' \<mapsto> Str l2) \<and>
         map_of row' ''title1'' = Some (Str []) \<and> map_of row' ''img1'' = Some (Str []) \<and>
         map_of row' ''lead1'' = Some (Str [])"
    using scrap_page_selects [OF r s p d refl refl refl refl, of world_empty _ _ _ _ _ ?row2 "Str []"]
    by simp
  then obtain row' w' where g1: "process_scrape_csv (env_page 200 []) [?row2] world_empty = (Inr [row'], w')"
    by blast
  have g2: "process_scrape_csv (env_page 200 []) [?row2] world_empty =
       (Inr [[(''ID'', Str ''42''), (''url1'', Str ?u), (''url2'', Str []),
              (''title1'', Str []), (''img1'', Str []), (''lead1'', Str []),
              (''title2'', Str []), (''img2'', Str []), (''lead2'', Str [])]], world_empty)"
    using e1 by (simp add: process_scrape_csv_def enrich_row_def scrape_column_def getitem_def
        setitem_def no_fields_def)
  have f: "first_match (is_tag ''h1'') (map snd (descendants (Tag ''[document]'' [] [] page_full)))
        (Tag ''h1'' [] [] [Text '' Hello ''])"
    by (rule first_match_find) (simp add: page_full_def)
  have g: "get_text [] (Tag ''h1'' [] [] [Text '' Hello '']) = ''Hello''"
    by (simp add: get_text_def strip_def isspace_def)
  have t: "title (fst (scrap_page (env_page 200 page_full) ?u world_empty)) = ''Hello''"
    using scrap_page_selects [OF r s p refl refl refl refl refl, of page_full world_empty
        "Tag ''h1'' [] [] [Text '' Hello '']"] f g
    by simp
  show ?thesis using r e1 e2 g1 g2 f t by simp
qed

text \<open>
  Claim C9 as stated fails where it says that the lead equals the text of the lead
  container: a container with 151 characters of text gives a lead of 150.
\<close>

theorem scrap_page_long_lead_counterexample:
  "select_one_class ''div'' ''entry-lead''
      (Tag ''[document]'' [] [] [Tag ''div'' [''entry-lead''] [] [Text (replicate 151 (CHR ''a''))]]) =
     Some (Tag ''div'' [''entry-lead''] [] [Text (replicate 151 (CHR ''a''))])
   \<and> get_text [] (Tag ''div'' [''entry-lead''] [] [Text (replicate 151 (CHR ''a''))]) = replicate 151 (CHR ''a'')
   \<and> lead (fst (scrap_page (env_page 200 [Tag ''div'' [''entry-lead''] [] [Text (replicate 151 (CHR ''a''))]])
        ''https://example.com/a'' world_empty)) = replicate 150 (CHR ''a'')"
proof -
  let ?t = "Tag ''div'' [''entry-lead''] [] [Text (replicate 151 (CHR ''a''))]"
  have h: "is_http_url ''https://example.com/a''"
    by (simp add: is_http_url_def startswith_def lower_def lower_char_def lstrip_def isspace_def)
  have s: "select_one_class ''div'' ''entry-lead'' (Tag ''[document]'' [] [] [?t]) = Some ?t"
    by (simp add: select_one_class_def)
  have n: "\<not> isspace (CHR ''a'')" by (simp add: isspace_def)
  have g: "get_text [] ?t = replicate 151 (CHR ''a'')"
    by (simp add: get_text_def strip_replicate [OF n])
  have r: "requests_get (env_page 200 [?t]) ''https://example.com/a'' = Inr \<lparr>status_code = 200, content = []\<rparr>"
    using h by (simp add: requests_get_def env_page_def env_offline_def)
  have c: "\<not> (400 \<le> status_code \<lparr>status_code = 200, content = []\<rparr> \<and>
             status_code \<lparr>status_code = 200, content = []\<rparr> < 600)" by simp
  have p: "html_parser (env_page 200 [?t]) (content \<lparr>status_code = 200, content = []\<rparr>) = Inr [?t]"
    by (simp add: env_page_def env_offline_def)
  have "scrap_page (env_page 200 [?t]) ''https://example.com/a'' world_empty =
      (extract_fields (Tag ''[document]'' [] [] [?t]), world_empty)"
    using r c p by (rule scrap_page_fetched)
  then have "lead (fst (scrap_page (env_page 200 [?t]) ''https://example.com/a'' world_empty)) =
      take 150 (get_text [] ?t)"
    using s by (simp add: extract_fields_def lead_text_def del: descendants.simps)
  then show ?thesis using s g by simp
qed

text \<open>
  The row of the scenario, with the columns \<open>ID\<close> and \<open>url1\<close> only, is not such a row:
  the first half of the loop body sets its three fields, and the second half reads
  \<open>row["url2"]\<close> (line 194) and raises \<open>KeyError\<close>, the slip of line 182 again.
\<close>

lemma process_scrape_csv_url2_absent_raises:
  "process_scrape_csv (env_page 200 [])
     [[(''ID'', Str ''42''), (''url1'', Str ''https://example.com/a'')]] world_empty =
   (Inl (KeyError ''url2''), world_empty)"
proof -
  have h: "is_http_url ''https://example.com/a''"
    by (simp add: is_http_url_def startswith_def lower_def lower_char_def lstrip_def isspace_def)
  have "scrap_page (env_page 200 []) ''https://example.com/a'' world_empty = (no_fields, world_empty)"
    using h by (simp add: scrap_page_def scrap_page_try_def requests_get_def raise_for_status_def
        BeautifulSoup_def extract_fields_def find_tag_def select_one_child_def select_one_class_def
        lead_text_def no_fields_def env_page_def env_offline_def)
  then show ?thesis
    by (simp add: process_scrape_csv_def enrich_row_def scrape_column_def getitem_def setitem_def
        no_fields_def)
qed

section \<open>Inlining: \<open>inline_base_images\<close>\<close>

text \<open>
  The replacement function leaves a match as it is when its value starts with \<open>data:\<close>
  and when the path joined from the base folder and the value does not exist.
\<close>

lemma replace_src_inline_data:
  "startswith src ''data:'' \<Longrightarrow> replace_src E base_folder g0 src w = (g0, w)"
  by (simp add: replace_src_def)

lemma replace_src_missing:
  "\<not> startswith src ''data:'' \<Longrightarrow> \<not> os_path_exists (files w) (os_path_join base_folder src) \<Longrightarrow>
     replace_src E base_folder g0 src w = (g0, w)"
  by (simp add: replace_src_def)

lemma replace_from_skip: "replace_from old new (length xs) (xs @ ys) = replace_from old new 0 ys"
  by (induction xs) simp_all

lemma not_startswith_hd: "old \<noteq> [] \<Longrightarrow> hd old \<noteq> c \<Longrightarrow> \<not> startswith (c # rest) old"
  by (cases old) (auto simp: startswith_def)

lemma str_replace_src_value:
  assumes "src \<noteq> []" and "hd src \<notin> set ''src=''" and "q \<notin> set src" and "q' \<notin> set src"
  shows "str_replace (''src='' @ [q] @ src @ [q']) src uri = ''src='' @ [q] @ uri @ [q']"
proof -
  obtain a as where src: "src = a # as" using assms(1) by (cases src) auto
  have n: "\<not> startswith (c # rest) src" if "hd src \<noteq> c" for c rest
    using assms(1) that by (rule not_startswith_hd)
  have h: "hd src \<noteq> CHR ''s''" "hd src \<noteq> CHR ''r''" "hd src \<noteq> CHR ''c''" "hd src \<noteq> CHR ''=''"
      "hd src \<noteq> q" "hd src \<noteq> q'"
    using assms(2,3,4) src by auto
  have m: "startswith (a # as @ [q']) (a # as)" by (simp add: startswith_def)
  have k: "replace_from (a # as) uri (length as) (as @ [q']) = replace_from (a # as) uri 0 [q']"
    by (rule replace_from_skip)
  have e: "replace_from (a # as) uri 0 [q'] = [q']"
    using n [OF h(6), of "[]"] by (simp add: src)
  have "replace_from src uri 0 (src @ [q']) = uri @ [q']"
    using m k e by (simp add: src)
  then show ?thesis
    using assms(1) n [OF h(1)] n [OF h(2)] n [OF h(3)] n [OF h(4)] n [OF h(5)]
    by (simp add: str_replace_def)
qed

text \<open>
  A value that names a readable regular file is replaced by the inline form of the
  file's bytes, the rest of the match being kept, provided the value does not begin with
  one of the characters of \<open>src=\<close> (\<open>str.replace\<close> rewrites every occurrence of the value
  in the matched text, the attribute name included).
\<close>

lemma replace_src_regular_file:
  assumes "\<not> startswith src ''data:''"
    and "files w (os_path_join base_folder src) = Some (File d)"
    and "open_error E (files w) (os_path_join base_folder src) = None"
    and "src \<noteq> []" and "hd src \<notin> set ''src=''" and "q \<notin> set src" and "q' \<notin> set src"
  shows "\<exists>mime. replace_src E base_folder (''src='' @ [q] @ src @ [q']) src w =
           (''src='' @ [q] @ (''data:'' @ mime @ '';base64,'' @ b64encode d) @ [q'], w)"
proof -
  let ?p = "os_path_join base_folder src"
  let ?ext = "lower (drop 1 (splitext_ext ?p))"
  let ?mime = "if ?ext = ''svg'' then ''image/svg+xml'' else ''image/'' @ ?ext"
  have e: "embed_image_as_data_uri E ?p w = (''data:'' @ ?mime @ '';base64,'' @ b64encode d, w)"
    using assms(2,3) by (simp add: embed_image_as_data_uri_def os_path_exists_def read_bytes_file Let_def)
  have "replace_src E base_folder (''src='' @ [q] @ src @ [q']) src w =
      (str_replace (''src='' @ [q] @ src @ [q']) src (''data:'' @ ?mime @ '';base64,'' @ b64encode d), w)"
    using assms(1,2) e by (simp add: replace_src_def os_path_exists_def Let_def)
  then show ?thesis
    unfolding str_replace_src_value [OF assms(4-7)] by blast
qed

text \<open>
  Claim C10. A \<open>src\<close> value that starts with \<open>data:\<close> and one whose path does not exist
  are left untouched, and one that names a readable regular file is replaced by the
  inline form of its contents (the three lemmas above). But \<open>os.path.exists\<close> also holds
  for a directory: \<open>embed_image_as_data_uri\<close> then fails to read it, shows an error and
  returns the empty string, which \<open>inline_base_images\<close> substitutes without looking at
  it. With a directory \<open>assets\<close> in the base folder, \<open><img src='assets'>\<close> becomes an
  image with an empty \<open>src\<close>, where the claim leaves untouched every value that does not
  resolve to an existing file.
\<close>

theorem inline_base_images_directory_emptied:
  "inline_base_images env_offline ''<img src='assets'>'' ''generated_mails/preview''
      \<lparr>files = [''generated_mails/preview/assets'' \<mapsto> Dir], shown = []\<rparr> =
     (''<img src=''@ [CHR 0x27, CHR 0x27] @ ''>'',
      \<lparr>files = [''generated_mails/preview/assets'' \<mapsto> Dir], shown = [EmbedError IsADirectoryError]\<rparr>)"
  by (simp add: inline_base_images_def src_match_def startswith_def is_quote_def replace_src_def
      os_path_join_def os_path_exists_def embed_image_as_data_uri_def read_bytes_def
      str_replace_def st_show_def)

text \<open>
  The same call of \<open>str.replace\<close> rewrites the attribute name when the value occurs in
  it: with a file \<open>c\<close> in the base folder, \<open>src='c'\<close> loses its name.
\<close>

lemma inline_base_images_name_clobbered:
  "fst (inline_base_images env_offline ''<img src='c'>'' ''generated_mails/preview''
      \<lparr>files = [''generated_mails/preview/c'' \<mapsto> File [0x41]], shown = []\<rparr>) =
     ''<img srdata:image/;base64,QQ==='data:image/;base64,QQ=='>''"
  by (simp add: inline_base_images_def src_match_def startswith_def is_quote_def replace_src_def
      os_path_join_def os_path_exists_def embed_image_as_data_uri_def read_bytes_def
      str_replace_def st_show_def splitext_ext_def os_path_basename_def lower_def env_offline_def
      b64_char_def b64_alphabet_def)

end
